theory Spec2Isabelle
  imports Complex_Main
begin

section \<open>Data model\<close>

text \<open>
  The program is \<^verbatim>\<open>main.cpp\<close>: a geoid grid loaded from a text file, the location of
  the grid cell round a query point, bilinear interpolation in that cell, and the
  topographic height.

  Conventions of the embedding.
  \<^item> A \<^verbatim>\<open>double\<close> is the real number it denotes. An operation on doubles yields the
    exact result rounded to a double; the rounding is a parameter \<open>fl\<close> of every function
    that computes with doubles. With \<open>round_double\<close> it is the rounding to nearest, ties
    to even, of IEEE 754 binary64 (each operation rounded on its own); with \<open>exact\<close> the
    arithmetic is exact. A theorem stated for every \<open>fl\<close> holds for both. Overflow to an
    infinity and NaN are not part of the model, except that a division by a step that is
    zero (the quotient is infinite or NaN, and its conversion to \<^verbatim>\<open>int\<close> is undefined)
    is the outcome \<open>Undefined\<close>. The values that the model computes are those of the
    program as long as every operation yields a finite double (\<open>finite_double\<close>).
  \<^item> An \<^verbatim>\<open>int\<close> is an integer. The interpolation computes the index
    \<^verbatim>\<open>row * ncols + col\<close> with the range of \<^verbatim>\<open>int\<close>: a product or a sum outside it is a
    signed overflow, undefined behaviour, and the outcome \<open>Undefined\<close>. In the loader the
    row counter and the products \<^verbatim>\<open>nrows * ncols\<close> and \<^verbatim>\<open>i * ncols\<close> are unbounded, so
    that the model of the loader describes files of fewer than \<open>2^31 / 3\<close> rows. The
    conversion \<^verbatim>\<open>static_cast<int>\<close> of a double is modelled with its range: it is defined
    only when the truncated value is a 32-bit \<^verbatim>\<open>int\<close>, and is \<open>Undefined\<close> otherwise.
  \<^item> \<^verbatim>\<open>std::vector::operator[]\<close> checks nothing: an index outside the vector is
    undefined behaviour, which the model reports as \<open>Undefined\<close> instead of inventing a
    value.
  \<^item> A \<^verbatim>\<open>throw std::runtime_error(...)\<close> is an error value, one constructor per message.
\<close>

record GeoidModel =
  nrows :: int
  ncols :: int
  lat_min :: real
  lon_min :: real
  lat_step :: real
  lon_step :: real
  data :: "real list"

datatype error =
    OpenError        \<comment> \<open>\<^verbatim>\<open>runtime_error("Error opening file ...")\<close>\<close>
  | InvalidFormat    \<comment> \<open>\<^verbatim>\<open>runtime_error("Invalid file format")\<close>\<close>
  | Undefined        \<comment> \<open>undefined behaviour of the C++ program\<close>

text \<open>
  Sequencing: the first outcome that is not a value ends the computation, as a thrown
  exception or undefined behaviour ends the C++ function.
\<close>

fun and_then :: "error + 'a \<Rightarrow> ('a \<Rightarrow> error + 'b) \<Rightarrow> error + 'b" where
  "and_then (Inl e) f = Inl e"
| "and_then (Inr x) f = f x"

section \<open>Double arithmetic\<close>

text \<open>
  \<open>round_even\<close> rounds a real to the nearest integer, a tie to the even one. \<open>binade\<close>
  scales a positive magnitude into \<open>[2^52, 2^53)\<close> by halving or doubling and counts the
  exponent. \<open>round_double\<close> is then the nearest number with a 53-bit significand, with the
  exponent kept at the least exponent \<open>-1074\<close> of binary64 or above (subnormal numbers).
\<close>

type_synonym rounding = "real \<Rightarrow> real"

definition round_even :: "real \<Rightarrow> int" where
  "round_even x =
     (let n = \<lfloor>x\<rfloor>; d = x - of_int n
      in if d < 1 / 2 then n else if 1 / 2 < d then n + 1 else if even n then n else n + 1)"

primrec binade :: "nat \<Rightarrow> real \<Rightarrow> int \<Rightarrow> int" where
  "binade 0 m e = e"
| "binade (Suc n) m e =
     (if 2 ^ 53 \<le> m then binade n (m / 2) (e + 1)
      else if m < 2 ^ 52 then binade n (m * 2) (e - 1)
      else e)"

definition round_double :: rounding where
  "round_double x =
     (if x = 0 then 0
      else let e = max (- 1074) (binade 2200 \<bar>x\<bar> 0)
           in of_int (round_even (x / 2 powi e)) * 2 powi e)"

text \<open>Exact arithmetic: no rounding.\<close>

definition exact :: rounding where
  "exact x = x"

text \<open>
  The largest finite double, \<open>(2^53 - 1) * 2^971\<close>. An operation overflows to an infinity
  exactly when its result, rounded as above, is larger in magnitude.
\<close>

definition DBL_MAX :: real where
  "DBL_MAX = (2 ^ 53 - 1) * 2 ^ 971"

definition finite_double :: "real \<Rightarrow> bool" where
  "finite_double x \<longleftrightarrow> \<bar>x\<bar> \<le> DBL_MAX"

section \<open>Locating the cell\<close>

definition INT_MIN :: int where
  "INT_MIN = - 2147483648"

definition INT_MAX :: int where
  "INT_MAX = 2147483647"

text \<open>\<^verbatim>\<open>static_cast<int>(x)\<close>: truncation towards zero, defined when the result is an \<^verbatim>\<open>int\<close>.\<close>

definition static_cast_int :: "real \<Rightarrow> error + int" where
  "static_cast_int x =
     (let t = (if 0 \<le> x then \<lfloor>x\<rfloor> else \<lceil>x\<rceil>)
      in if INT_MIN \<le> t \<and> t \<le> INT_MAX then Inr t else Inl Undefined)"

text \<open>\<^verbatim>\<open>std::max(0, std::min(i, n - 1))\<close>\<close>

definition clamp_index :: "int \<Rightarrow> int \<Rightarrow> int" where
  "clamp_index i n = max 0 (min i (n - 1))"

text \<open>
  \<^verbatim>\<open>find_grid_indices\<close> returns through its four reference parameters, in the order
  \<open>(row1, col1, row2, col2)\<close>. The bounds check at its head is commented out in the source
  and so has no counterpart here.
\<close>

definition find_grid_indices :: "rounding \<Rightarrow> GeoidModel \<Rightarrow> real \<Rightarrow> real \<Rightarrow> error + (int \<times> int \<times> int \<times> int)" where
  "find_grid_indices fl model lat lon =
     (if lat_step model = 0 \<or> lon_step model = 0 then Inl Undefined
      else
        let row = fl (fl (lat - lat_min model) / lat_step model);
            col = fl (fl (lon - lon_min model) / lon_step model)
        in and_then (static_cast_int (of_int \<lfloor>row\<rfloor>)) (\<lambda>row1.
           and_then (static_cast_int (of_int \<lceil>row\<rceil>)) (\<lambda>row2.
           and_then (static_cast_int (of_int \<lfloor>col\<rfloor>)) (\<lambda>col1.
           and_then (static_cast_int (of_int \<lceil>col\<rceil>)) (\<lambda>col2.
             Inr (clamp_index row1 (nrows model), clamp_index col1 (ncols model),
                  clamp_index row2 (nrows model), clamp_index col2 (ncols model)))))))"

text \<open>
  The values of the local variables \<^verbatim>\<open>row\<close> and \<^verbatim>\<open>col\<close> of \<^verbatim>\<open>find_grid_indices\<close>: the
  fractional position of a coordinate in the grid, as the source computes it.
\<close>

definition row_position :: "rounding \<Rightarrow> GeoidModel \<Rightarrow> real \<Rightarrow> real" where
  "row_position fl model lat = fl (fl (lat - lat_min model) / lat_step model)"

definition col_position :: "rounding \<Rightarrow> GeoidModel \<Rightarrow> real \<Rightarrow> real" where
  "col_position fl model lon = fl (fl (lon - lon_min model) / lon_step model)"

text \<open>
  The values a double can take for \<^verbatim>\<open>static_cast<int>\<close> of its floor and of its ceiling
  to be defined.
\<close>

definition in_int_range :: "real \<Rightarrow> bool" where
  "in_int_range x \<longleftrightarrow> of_int INT_MIN \<le> x \<and> x \<le> of_int INT_MAX"

text \<open>
  The specification's "nearest edge coordinate": the grid covers the coordinates between
  \<open>lo\<close> and \<open>lo + (n - 1) * step\<close>, in either order since a step may be negative, and a
  coordinate outside that range is moved to the nearer end.
\<close>

definition nearest_edge :: "real \<Rightarrow> real \<Rightarrow> int \<Rightarrow> real \<Rightarrow> real" where
  "nearest_edge lo step n x =
     (let a = lo; b = lo + of_int (n - 1) * step
      in max (min a b) (min (max a b) x))"

section \<open>Interpolation\<close>

text \<open>\<^verbatim>\<open>v[i]\<close> on a \<^verbatim>\<open>std::vector<double>\<close>, read access.\<close>

definition at_index :: "real list \<Rightarrow> int \<Rightarrow> error + real" where
  "at_index v i = (if 0 \<le> i \<and> i < int (length v) then Inr (v ! nat i) else Inl Undefined)"

text \<open>
  The result of an arithmetic operation on \<^verbatim>\<open>int\<close>s: a result outside the range of \<^verbatim>\<open>int\<close>
  is a signed overflow, which is undefined behaviour.
\<close>

definition int_value :: "int \<Rightarrow> error + int" where
  "int_value i = (if INT_MIN \<le> i \<and> i \<le> INT_MAX then Inr i else Inl Undefined)"

text \<open>
  \<^verbatim>\<open>model.data[row * model.ncols + col]\<close>: the product, then the sum, both in \<^verbatim>\<open>int\<close>,
  then the access to the vector.
\<close>

definition sample_at :: "GeoidModel \<Rightarrow> int \<Rightarrow> int \<Rightarrow> error + real" where
  "sample_at model row col =
     and_then (int_value (row * ncols model)) (\<lambda>p.
     and_then (int_value (p + col)) (\<lambda>i.
       at_index (data model) i))"

definition interpolate_geoid_height :: "rounding \<Rightarrow> GeoidModel \<Rightarrow> real \<Rightarrow> real \<Rightarrow> error + real" where
  "interpolate_geoid_height fl model lat lon =
     and_then (find_grid_indices fl model lat lon) (\<lambda>(row1, col1, row2, col2).
     and_then (sample_at model row1 col1) (\<lambda>h11.
     and_then (sample_at model row1 col2) (\<lambda>h12.
     and_then (sample_at model row2 col1) (\<lambda>h21.
     and_then (sample_at model row2 col2) (\<lambda>h22.
       let dlat = fl (fl (fl (lat - lat_min model) - fl (of_int row1 * lat_step model))
                        / lat_step model);
           dlon = fl (fl (fl (lon - lon_min model) - fl (of_int col1 * lon_step model))
                        / lon_step model);
           h1 = fl (h11 + fl (dlon * fl (h12 - h11)));
           h2 = fl (h21 + fl (dlon * fl (h22 - h21)));
           h = fl (h1 + fl (dlat * fl (h2 - h1)))
       in Inr h)))))"

definition compute_topographic_height :: "rounding \<Rightarrow> GeoidModel \<Rightarrow> real \<Rightarrow> real \<Rightarrow> real \<Rightarrow> error + real" where
  "compute_topographic_height fl model lat lon ellipsoid_height =
     and_then (interpolate_geoid_height fl model lat lon) (\<lambda>geoid_height.
       let topographic_height = fl (ellipsoid_height - geoid_height)
       in Inr topographic_height)"

section \<open>Loading a model\<close>

text \<open>
  The file is its content, a string, or \<open>None\<close> when \<^verbatim>\<open>std::ifstream\<close> cannot open it.
  A stream position is the text that is still to be read.

  \<^verbatim>\<open>std::getline(file, line)\<close> fails exactly when nothing is left to read; otherwise it
  yields the characters before the next newline and consumes that newline.
\<close>

definition getline :: "string \<Rightarrow> (string \<times> string) option" where
  "getline s =
     (if s = [] then None
      else Some (takeWhile (\<lambda>c. c \<noteq> CHR 0x0A) s, drop 1 (dropWhile (\<lambda>c. c \<noteq> CHR 0x0A) s)))"

text \<open>
  The header is read into \<^verbatim>\<open>line\<close>, which starts empty and stays empty when the read fails.
\<close>

definition read_header :: "string \<Rightarrow> string \<times> string" where
  "read_header content = (case getline content of None \<Rightarrow> ([], []) | Some p \<Rightarrow> p)"

definition expected_header :: string where
  "expected_header = ''Longitude'' @ [CHR 0x09] @ ''Latitude'' @ [CHR 0x09] @ ''Height''"

text \<open>\<^verbatim>\<open>while (std::getline(file, line)) ++model.nrows;\<close>\<close>

function count_rows :: "string \<Rightarrow> int \<Rightarrow> int" where
  "count_rows s n = (case getline s of None \<Rightarrow> n | Some (line, rest) \<Rightarrow> count_rows rest (n + 1))"
  by pat_completeness auto

lemma getline_shorter: "getline s = Some (line, rest) \<Longrightarrow> length rest < length s"
  using length_dropWhile_le [of "\<lambda>c. c \<noteq> CHR 0x0A" s]
  by (cases s) (auto simp: getline_def split: if_splits)

termination count_rows
  by (relation "measure (\<lambda>(s, n). length s)") (auto dest: getline_shorter)

text \<open>\<^verbatim>\<open>for (char c : line) if (c == '\t') ++model.ncols;\<close>\<close>

primrec count_tabs :: "string \<Rightarrow> int \<Rightarrow> int" where
  "count_tabs [] n = n"
| "count_tabs (c # cs) n = count_tabs cs (if c = CHR 0x09 then n + 1 else n)"

text \<open>
  \<^verbatim>\<open>iss >> x\<close> for a double \<open>x\<close> belongs to the C++ library, not to this program. It is a
  parameter of the model: a reader maps the text left in the line to the number read and
  the text after it, or to \<open>None\<close> when the extraction fails (after which the stream stays
  failed, so that later extractions fail too).
\<close>

type_synonym reader = "string \<Rightarrow> (real \<times> string) option"

text \<open>\<^verbatim>\<open>iss >> lon >> lat >> h\<close>, and whether the stream is still good afterwards.\<close>

definition parse_row :: "reader \<Rightarrow> string \<Rightarrow> (real \<times> real \<times> real) option" where
  "parse_row rd line =
     (case rd line of None \<Rightarrow> None
      | Some (lon, r1) \<Rightarrow>
         (case rd r1 of None \<Rightarrow> None
          | Some (lat, r2) \<Rightarrow>
             (case rd r2 of None \<Rightarrow> None
              | Some (h, r3) \<Rightarrow> Some (lon, lat, h))))"

text \<open>\<^verbatim>\<open>v[i] = x\<close> on a \<^verbatim>\<open>std::vector<double>\<close>, write access.\<close>

definition store :: "real list \<Rightarrow> int \<Rightarrow> real \<Rightarrow> error + real list" where
  "store v i x = (if 0 \<le> i \<and> i < int (length v) then Inr (v[nat i := x]) else Inl Undefined)"

text \<open>
  The loop \<^verbatim>\<open>for (int i = 0; i < model.nrows; ++i)\<close> that fills the buffer, from the
  stream position after the header.
\<close>

function read_rows :: "reader \<Rightarrow> int \<Rightarrow> int \<Rightarrow> int \<Rightarrow> string \<Rightarrow> real list \<Rightarrow> error + real list" where
  "read_rows rd i n_rows n_cols s buf =
     (if i < n_rows then
        (case getline s of None \<Rightarrow> Inl InvalidFormat
         | Some (line, rest) \<Rightarrow>
            (case parse_row rd line of None \<Rightarrow> Inl InvalidFormat
             | Some (lon, lat, h) \<Rightarrow>
                 (let j = i * n_cols
                  in and_then (store buf j lon) (\<lambda>buf.
                     and_then (store buf (j + 1) lat) (\<lambda>buf.
                     and_then (store buf (j + 2) h) (\<lambda>buf.
                       read_rows rd (i + 1) n_rows n_cols rest buf))))))
      else Inr buf)"
  by pat_completeness auto

termination read_rows
  by (relation "measure (\<lambda>(rd, i, n_rows, n_cols, s, buf). nat (n_rows - i))") auto

text \<open>
  \<^verbatim>\<open>load_geoid_model\<close>. The row count comes from a first pass over the file, the column
  count from the tabs of the header read again after \<^verbatim>\<open>seekg(0)\<close>; \<^verbatim>\<open>resize\<close> fills the
  buffer with zeros. The four reads of the buffer after the loop come before the two
  divisions, so that a division is reached only when sample \<open>(ncols - 1) * 3\<close> exists;
  the divisors are then nonzero (\<open>load_needs_three_rows\<close>).
\<close>

definition load_geoid_model :: "rounding \<Rightarrow> reader \<Rightarrow> string option \<Rightarrow> error + GeoidModel" where
  "load_geoid_model fl rd file =
     (case file of None \<Rightarrow> Inl OpenError
      | Some content \<Rightarrow>
         (let (line, rest) = read_header content
          in if line \<noteq> expected_header then Inl InvalidFormat
             else
               let n_rows = count_rows rest 0;
                   (line, rest) = read_header content;
                   n_cols = count_tabs line 0 + 1;
                   buf = replicate (nat (n_rows * n_cols)) 0
               in and_then (read_rows rd 0 n_rows n_cols rest buf) (\<lambda>d.
                  and_then (at_index d 0) (\<lambda>lonmin.
                  and_then (at_index d 1) (\<lambda>latmin.
                  and_then (at_index d ((n_cols - 1) * 3)) (\<lambda>lon_max.
                  and_then (at_index d ((n_rows - 1) * n_cols + 1)) (\<lambda>lat_max.
                    Inr \<lparr>nrows = n_rows, ncols = n_cols,
                         lat_min = latmin, lon_min = lonmin,
                         lat_step = fl (fl (lat_max - latmin) / of_int (n_rows - 1)),
                         lon_step = fl (fl (lon_max - lonmin) / of_int (n_cols - 1)),
                         data = d\<rparr>)))))))"

section \<open>The rows of a file\<close>

text \<open>
  What the two passes of the loader read, as values: the lines that repeated
  \<^verbatim>\<open>getline\<close> yields from a stream position, the data rows of a file (its lines after the
  header), the three numbers that a row contributes to the buffer, and the statements of
  \<^verbatim>\<open>load_geoid_model\<close> after its loop, for the three columns of the header.
\<close>

function lines_of :: "string \<Rightarrow> string list" where
  "lines_of s = (case getline s of None \<Rightarrow> [] | Some (line, rest) \<Rightarrow> line # lines_of rest)"
  by pat_completeness auto

termination lines_of
  by (relation "measure length") (auto dest: getline_shorter)

definition data_rows :: "string \<Rightarrow> string list" where
  "data_rows content = lines_of (snd (read_header content))"

definition row_values :: "reader \<Rightarrow> string \<Rightarrow> real list" where
  "row_values rd line = (case parse_row rd line of None \<Rightarrow> [] | Some (lon, lat, h) \<Rightarrow> [lon, lat, h])"

definition model_of :: "rounding \<Rightarrow> int \<Rightarrow> real list \<Rightarrow> error + GeoidModel" where
  "model_of fl n = (\<lambda>d.
     and_then (at_index d 0) (\<lambda>lonmin.
     and_then (at_index d 1) (\<lambda>latmin.
     and_then (at_index d ((3 - 1) * 3)) (\<lambda>lon_max.
     and_then (at_index d ((n - 1) * 3 + 1)) (\<lambda>lat_max.
       Inr \<lparr>nrows = n, ncols = 3,
            lat_min = latmin, lon_min = lonmin,
            lat_step = fl (fl (lat_max - latmin) / of_int (n - 1)),
            lon_step = fl (fl (lon_max - lonmin) / of_int (3 - 1)),
            data = d\<rparr>)))))"

section \<open>A reader for plain decimal numerals\<close>

text \<open>
  The theorems about \<open>load_geoid_model\<close> hold for every reader. To run the loader on a
  concrete file, \<open>read_decimal\<close> reads what \<^verbatim>\<open>operator>>\<close> reads when the text starts,
  after optional white space, with an optional minus sign and a decimal numeral
  \<open>digits\<close> or \<open>digits.digits\<close> that is followed by white space or by the end of the
  line; it is used on such texts only.
\<close>

definition is_space :: "char \<Rightarrow> bool" where
  "is_space c \<longleftrightarrow> c \<in> set [CHR '' '', CHR 0x09, CHR 0x0A, CHR 0x0B, CHR 0x0C, CHR 0x0D]"

definition is_digit :: "char \<Rightarrow> bool" where
  "is_digit c \<longleftrightarrow> c \<in> set ''0123456789''"

definition digit_value :: "char \<Rightarrow> nat" where
  "digit_value c = of_char c - 48"

primrec digits_value :: "string \<Rightarrow> nat \<Rightarrow> nat" where
  "digits_value [] acc = acc"
| "digits_value (c # cs) acc = digits_value cs (10 * acc + digit_value c)"

definition read_decimal :: reader where
  "read_decimal s =
     (let s1 = dropWhile is_space s;
          neg = (s1 \<noteq> [] \<and> hd s1 = CHR ''-'');
          s2 = (if neg then tl s1 else s1);
          ip = takeWhile is_digit s2;
          s3 = dropWhile is_digit s2;
          frac = (s3 \<noteq> [] \<and> hd s3 = CHR ''.'');
          fp = (if frac then takeWhile is_digit (tl s3) else []);
          s4 = (if frac then dropWhile is_digit (tl s3) else s3);
          v = real (digits_value ip 0) + real (digits_value fp 0) / 10 ^ length fp
      in if ip = [] then None else Some (if neg then - v else v, s4))"

section \<open>The specification's notion of a well-formed row\<close>




section \<open>Sample inputs\<close>

text \<open>A text file with the given lines, each ended by a newline.\<close>

definition file_of :: "string list \<Rightarrow> string" where
  "file_of ls = concat (map (\<lambda>l. l @ [CHR 0x0A]) ls)"



definition sample_file :: string where
  "sample_file = file_of [expected_header, ''-9 40 50'', ''-8 40 52'', ''-8.5 41 48'']"


definition sample_model :: GeoidModel where
  "sample_model = \<lparr>nrows = 3, ncols = 3, lat_min = 40, lon_min = - 9,
                    lat_step = 1 / 2, lon_step = 1 / 4,
                    data = [- 9, 40, 50, - 8, 40, 52, - 8.5, 41, 48]\<rparr>"

text \<open>The 2 by 2 grid of the specification's worked example.\<close>

definition grid_2x2 :: GeoidModel where
  "grid_2x2 = \<lparr>nrows = 2, ncols = 2, lat_min = 40, lon_min = - 9,
                lat_step = 1, lon_step = 1, data = [50, 52, 48, 49]\<rparr>"

text \<open>
  A grid whose \<open>lat_min\<close> is the double 0.9000000000000001 and whose \<open>lat_step\<close> is the
  double 0.7 (the doubles nearest to 0.9 and 0.7 are not 0.9 and 0.7): the latitude of its
  last row, \<open>lat_min + 3 * lat_step\<close>, is exactly 3.
\<close>

definition rounding_grid :: GeoidModel where
  "rounding_grid = \<lparr>nrows = 4, ncols = 1,
                     lat_min = 4053239664633447 / 4503599627370496, lon_min = 0,
                     lat_step = 3152519739159347 / 4503599627370496, lon_step = 1,
                     data = [0, 0, 0, 1]\<rparr>"

text \<open>A grid with samples 1 and \<open>1 + 2^-52\<close>, the next double after 1.\<close>

definition ulp_grid :: GeoidModel where
  "ulp_grid = \<lparr>nrows = 2, ncols = 2, lat_min = 0, lon_min = 0, lat_step = 1, lon_step = 1,
               data = [1, 4503599627370497 / 4503599627370496,
                       1, 4503599627370497 / 4503599627370496]\<rparr>"

section \<open>Properties of the rounding\<close>

lemma binade_scaled:
  assumes "2 ^ 52 \<le> m * 2 ^ k" and "m * 2 ^ k < 2 ^ 53" and "k \<le> n"
  shows "binade n m e = e - int k"
  using assms
proof (induction k arbitrary: n m e)
  case 0
  then show ?case by (cases n) simp_all
next
  case (Suc k)
  then obtain n' where n: "n = Suc n'" by (cases n) auto
  have "m * 2 ^ k < 2 ^ 52" using Suc.prems(2) by simp
  moreover have "m \<le> m * 2 ^ k" if "0 \<le> m"
    using that mult_left_mono [of 1 "2 ^ k" m] by simp
  ultimately have small: "m < 2 ^ 52"
    by (cases "0 \<le> m") auto
  then have "\<not> 2 ^ 53 \<le> m" by simp
  moreover have "binade n' (m * 2) (e - 1) = e - 1 - int k"
    using Suc.prems n by (intro Suc.IH) (simp_all add: mult.assoc)
  ultimately show ?case using small n by simp
qed

lemma round_even_of_int: "round_even (of_int z) = z"
  by (simp add: round_even_def)

lemma round_double_scaled:
  assumes "x \<noteq> 0" and "2 ^ 52 \<le> \<bar>x\<bar> * 2 ^ k" and "\<bar>x\<bar> * 2 ^ k < 2 ^ 53" and "k \<le> 1074"
  shows "round_double x = of_int (round_even (x * 2 ^ k)) / 2 ^ k"
proof -
  have "binade 2200 \<bar>x\<bar> 0 = 0 - int k"
    using assms(2,3,4) by (intro binade_scaled) simp_all
  then have "max (- 1074) (binade 2200 \<bar>x\<bar> 0) = - int k"
    using assms(4) by simp
  then show ?thesis
    using assms(1) by (simp add: round_double_def power_int_minus field_simps)
qed

lemma round_double_0: "round_double 0 = 0"
  by (simp add: round_double_def)

lemma scale_exists:
  fixes m :: real
  assumes "1 \<le> m" and "m < 2 ^ 53"
  shows "\<exists>k\<le>52. 2 ^ 52 \<le> m * 2 ^ k \<and> m * 2 ^ k < 2 ^ 53"
proof -
  have "2 ^ 52 \<le> m * 2 ^ 52" using assms(1) by simp
  then obtain k where k: "2 ^ 52 \<le> m * 2 ^ k" "\<forall>j<k. \<not> 2 ^ 52 \<le> m * 2 ^ j" "k \<le> 52"
    using ex_least_nat_le [of "\<lambda>k. 2 ^ 52 \<le> m * 2 ^ k" 52] by auto
  have "m * 2 ^ k < 2 ^ 53"
  proof (cases k)
    case 0
    with assms(2) show ?thesis by simp
  next
    case (Suc j)
    with k(2) have "m * 2 ^ j < 2 ^ 52" by auto
    with Suc show ?thesis by simp
  qed
  with k show ?thesis by blast
qed

lemma round_double_dyadic:
  assumes "m \<noteq> 0" and "\<bar>m\<bar> < 2 ^ 53" and "j \<le> 1022"
  shows "round_double (of_int m / 2 ^ j) = of_int m / 2 ^ j"
proof -
  have "1 \<le> \<bar>real_of_int m\<bar>" using assms(1) by linarith
  moreover have "real_of_int \<bar>m\<bar> < real_of_int (2 ^ 53)"
    using assms(2) by (simp only: of_int_less_iff)
  then have "\<bar>real_of_int m\<bar> < 2 ^ 53" by simp
  ultimately obtain k where k: "k \<le> 52" "2 ^ 52 \<le> \<bar>real_of_int m\<bar> * 2 ^ k"
    "\<bar>real_of_int m\<bar> * 2 ^ k < 2 ^ 53"
    using scale_exists by blast
  let ?x = "real_of_int m / 2 ^ j"
  have e: "?x * 2 ^ (k + j) = of_int (m * 2 ^ k)"
    by (simp add: power_add)
  have a: "\<bar>?x\<bar> * 2 ^ (k + j) = \<bar>real_of_int m\<bar> * 2 ^ k"
    by (simp add: power_add abs_mult)
  have "round_double ?x = of_int (round_even (?x * 2 ^ (k + j))) / 2 ^ (k + j)"
    using assms(1,3) k by (intro round_double_scaled) (simp_all only: a, simp_all)
  also have "\<dots> = ?x"
    unfolding e round_even_of_int by (simp add: power_add)
  finally show ?thesis .
qed

lemma exact_simp [simp]: "exact x = x"
  by (simp add: exact_def)

text \<open>The roundings that the examples below go through.\<close>

lemma round_far_edge_offset: "round_double (9457559217478041 / 4503599627370496) = 1182194902184755 / 562949953421312"
  using round_double_scaled [of "9457559217478041 / 4503599627370496" 51] by (simp add: round_even_def)

lemma round_far_edge_position: "round_double (9457559217478040 / 3152519739159347) = 6755399441055743 / 2251799813685248"
  using round_double_scaled [of "9457559217478040 / 3152519739159347" 51] by (simp add: round_even_def)



lemma round_far_edge_dlat: "round_double (3152519739159346 / 3152519739159347) = 9007199254740989 / 9007199254740992"
  using round_double_scaled [of "3152519739159346 / 3152519739159347" 53] by (simp add: round_even_def)

lemma round_double_small_values:
  "round_double 1 = 1" "round_double 2 = 2" "round_double 4 = 4" "round_double 8 = 8"
  "round_double 9 = 9" "round_double 10 = 10"
  "round_double (- 11) = - 11" "round_double 48 = 48" "round_double 49 = 49"
  "round_double 50 = 50" "round_double 51 = 51" "round_double 52 = 52" "round_double 98 = 98"
  "round_double 2147483648 = 2147483648"
  "round_double (1 / 2) = 1 / 2" "round_double (97 / 2) = 97 / 2"
  "round_double (- (5 / 2)) = - (5 / 2)" "round_double (- (5 / 4)) = - (5 / 4)"
  "round_double (199 / 4) = 199 / 4"
  using round_double_dyadic [of 1 0] round_double_dyadic [of 2 0] round_double_dyadic [of 4 0]
    round_double_dyadic [of 8 0] round_double_dyadic [of 9 0]
    round_double_dyadic [of 10 0] round_double_dyadic [of "- 11" 0]
    round_double_dyadic [of 48 0] round_double_dyadic [of 49 0] round_double_dyadic [of 50 0]
    round_double_dyadic [of 51 0] round_double_dyadic [of 52 0] round_double_dyadic [of 98 0]
    round_double_dyadic [of 2147483648 0]
    round_double_dyadic [of 1 1] round_double_dyadic [of 97 1]
    round_double_dyadic [of "- 5" 1] round_double_dyadic [of "- 5" 2]
    round_double_dyadic [of 199 2]
  by simp_all

lemma round_double_small_integers:
  "round_double 3 = 3" "round_double (- 1) = - 1" "round_double (- 2) = - 2"
  "round_double (- 3) = - 3" "round_double (- 4) = - 4"
  using round_double_dyadic [of 3 0] round_double_dyadic [of "- 1" 0]
    round_double_dyadic [of "- 2" 0] round_double_dyadic [of "- 3" 0]
    round_double_dyadic [of "- 4" 0]
  by simp_all

lemma finite_double_small: "\<bar>x\<bar> \<le> 2 ^ 31 \<Longrightarrow> finite_double x"
proof -
  have "(2::real) ^ 31 \<le> 2 ^ 971" by (rule power_increasing) simp_all
  also have "\<dots> \<le> (2 ^ 53 - 1) * 2 ^ 971" by simp
  finally have "2 ^ 31 \<le> DBL_MAX" by (simp add: DBL_MAX_def)
  then show "\<bar>x\<bar> \<le> 2 ^ 31 \<Longrightarrow> finite_double x"
    by (simp add: finite_double_def)
qed

lemma round_far_edge_exact_values:
  "round_double (3152519739159347 / 2251799813685248) = 3152519739159347 / 2251799813685248"
  "round_double (1576259869579673 / 2251799813685248) = 1576259869579673 / 2251799813685248"
  "round_double (9007199254740989 / 9007199254740992) = 9007199254740989 / 9007199254740992"
  using round_double_dyadic [of 3152519739159347 51] round_double_dyadic [of 1576259869579673 51]
    round_double_dyadic [of 9007199254740989 53]
  by simp_all

lemma round_ulp_values:
  "round_double (3 / 4) = 3 / 4" "round_double (5 / 8) = 5 / 8"
  "round_double (1 / 4503599627370496) = 1 / 4503599627370496"
  "round_double (1 / 9007199254740992) = 1 / 9007199254740992"
  "round_double (3 / 18014398509481984) = 3 / 18014398509481984"
  "round_double (5 / 36028797018963968) = 5 / 36028797018963968"
  "round_double (4503599627370497 / 4503599627370496) = 4503599627370497 / 4503599627370496"
  "round_double (4503599627370497 / 9007199254740992) = 4503599627370497 / 9007199254740992"
  using round_double_dyadic [of 3 2] round_double_dyadic [of 5 3]
    round_double_dyadic [of 1 52] round_double_dyadic [of 1 53]
    round_double_dyadic [of 3 54] round_double_dyadic [of 5 55]
    round_double_dyadic [of 4503599627370497 52] round_double_dyadic [of 4503599627370497 53]
  by simp_all

lemma round_ulp_tie: "round_double (9007199254740993 / 9007199254740992) = 1"
  using round_double_scaled [of "9007199254740993 / 9007199254740992" 52] by (simp add: round_even_def)

lemma round_ulp_up_3: "round_double (18014398509481987 / 18014398509481984) = 4503599627370497 / 4503599627370496"
  using round_double_scaled [of "18014398509481987 / 18014398509481984" 52] by (simp add: round_even_def)

lemma round_ulp_up_5: "round_double (36028797018963973 / 36028797018963968) = 4503599627370497 / 4503599627370496"
  using round_double_scaled [of "36028797018963973 / 36028797018963968" 52] by (simp add: round_even_def)

section \<open>Properties of the cell location\<close>

lemmas grid_eval =
  interpolate_geoid_height_def find_grid_indices_def static_cast_int_def INT_MIN_def
  INT_MAX_def clamp_index_def at_index_def sample_at_def int_value_def Let_def ceiling_def

lemma static_cast_int_of_int:
  "static_cast_int (of_int z) = (if INT_MIN \<le> z \<and> z \<le> INT_MAX then Inr z else Inl Undefined)"
  by (simp add: static_cast_int_def)

lemma in_int_range_floor: "in_int_range x \<Longrightarrow> INT_MIN \<le> \<lfloor>x\<rfloor> \<and> \<lfloor>x\<rfloor> \<le> INT_MAX"
  unfolding in_int_range_def by (simp add: le_floor_iff floor_le_iff)

lemma in_int_range_ceiling: "in_int_range x \<Longrightarrow> INT_MIN \<le> \<lceil>x\<rceil> \<and> \<lceil>x\<rceil> \<le> INT_MAX"
  unfolding in_int_range_def by (simp add: ceiling_le_iff le_ceiling_iff)

lemma find_grid_indices_in_range:
  assumes "lat_step g \<noteq> 0" "lon_step g \<noteq> 0"
    and "in_int_range (row_position fl g lat)"
    and "in_int_range (col_position fl g lon)"
  shows "find_grid_indices fl g lat lon =
           Inr (clamp_index \<lfloor>row_position fl g lat\<rfloor> (nrows g),
                clamp_index \<lfloor>col_position fl g lon\<rfloor> (ncols g),
                clamp_index \<lceil>row_position fl g lat\<rceil> (nrows g),
                clamp_index \<lceil>col_position fl g lon\<rceil> (ncols g))"
  using assms in_int_range_floor [OF assms(3)] in_int_range_ceiling [OF assms(3)]
    in_int_range_floor [OF assms(4)] in_int_range_ceiling [OF assms(4)]
  by (simp add: find_grid_indices_def Let_def static_cast_int_of_int
      row_position_def col_position_def)

lemma and_then_Inr_iff: "and_then m f = Inr y \<longleftrightarrow> (\<exists>x. m = Inr x \<and> f x = Inr y)"
  by (cases m) auto

lemma find_grid_indices_Inr_iff:
  "(\<exists>idx. find_grid_indices fl g lat lon = Inr idx) \<longleftrightarrow>
     lat_step g \<noteq> 0 \<and> lon_step g \<noteq> 0 \<and>
     in_int_range (row_position fl g lat) \<and> in_int_range (col_position fl g lon)"
proof
  assume "\<exists>idx. find_grid_indices fl g lat lon = Inr idx"
  then show "lat_step g \<noteq> 0 \<and> lon_step g \<noteq> 0 \<and>
     in_int_range (row_position fl g lat) \<and> in_int_range (col_position fl g lon)"
    by (auto simp: find_grid_indices_def Let_def static_cast_int_of_int in_int_range_def
        row_position_def col_position_def
        and_then_Inr_iff le_floor_iff ceiling_le_iff split: if_splits)
next
  assume "lat_step g \<noteq> 0 \<and> lon_step g \<noteq> 0 \<and>
     in_int_range (row_position fl g lat) \<and> in_int_range (col_position fl g lon)"
  then show "\<exists>idx. find_grid_indices fl g lat lon = Inr idx"
    by (simp add: find_grid_indices_in_range)
qed

lemma clamp_index_bounds: "1 \<le> n \<Longrightarrow> 0 \<le> clamp_index i n \<and> clamp_index i n \<le> n - 1"
  by (simp add: clamp_index_def)



lemma round_double_quarter: "round_double (1 / 4) = 1 / 4"
  using round_double_dyadic [of 1 2] by simp

lemma find_far_edge: "find_grid_indices round_double rounding_grid 3 0 = Inr (2, 0, 3, 0)"
  by (simp add: grid_eval rounding_grid_def round_double_0 round_far_edge_offset
      round_far_edge_position)




lemma interp_2x2:
  "interpolate_geoid_height round_double grid_2x2 40.5 (- 8.5) = Inr 49.75"
  "interpolate_geoid_height round_double grid_2x2 40 (- 9) = Inr 50"
  "interpolate_geoid_height round_double grid_2x2 2147483688 (- 9) = Inl Undefined"
  "interpolate_geoid_height exact grid_2x2 40.5 (- 8.5) = Inr 49.75"
  by (simp_all add: grid_eval grid_2x2_def round_double_0 round_double_small_values)

lemma interp_far_edge:
  "interpolate_geoid_height round_double rounding_grid 3 0 = Inr (9007199254740989 / 9007199254740992)"
  by (simp add: grid_eval rounding_grid_def round_double_0 round_far_edge_offset
      round_far_edge_position round_far_edge_dlat round_far_edge_exact_values
      round_double_small_values)




lemma row_position_exact [simp]: "row_position exact g lat = (lat - lat_min g) / lat_step g"
  by (simp add: row_position_def)

lemma col_position_exact [simp]: "col_position exact g lon = (lon - lon_min g) / lon_step g"
  by (simp add: col_position_def)

lemma floor_clamp: "0 \<le> k \<Longrightarrow> \<lfloor>max 0 (min (of_int k) (r::real))\<rfloor> = max 0 (min k \<lfloor>r\<rfloor>)"
  by linarith

lemma ceiling_clamp: "0 \<le> k \<Longrightarrow> \<lceil>max 0 (min (of_int k) (r::real))\<rceil> = max 0 (min k \<lceil>r\<rceil>)"
  by linarith

lemma edge_position_pos:
  fixes step k lo x :: real
  assumes "0 < step" "0 \<le> k"
  shows "(max (min lo (lo + k * step)) (min (max lo (lo + k * step)) x) - lo) / step
           = max 0 (min k ((x - lo) / step))" (is "?l = ?r")
proof -
  have "lo \<le> lo + k * step" using assms by simp
  then have "?l = (max lo (min (lo + k * step) x) - lo) / step" by (simp add: min_def max_def)
  also have "\<dots> = max 0 (min (k * step) (x - lo)) / step" 
    by (simp add: min_def max_def)
  also have "\<dots> = ?r" using assms(1)
    by (simp add: max_divide_distrib_right min_divide_distrib_right)
  finally show ?thesis .
qed

lemma edge_position_neg:
  fixes step k lo x :: real
  assumes "step < 0" "0 \<le> k"
  shows "(max (min lo (lo + k * step)) (min (max lo (lo + k * step)) x) - lo) / step
           = max 0 (min k ((x - lo) / step))" (is "?l = ?r")
proof -
  have "lo + k * step \<le> lo" using assms by (simp add: mult_nonneg_nonpos)
  then have "?l = (max (lo + k * step) (min lo x) - lo) / step" by (simp add: min_def max_def)
  also have "\<dots> = max (k * step) (min 0 (x - lo)) / step" 
    by (simp add: min_def max_def)
  also have "\<dots> = min k (max 0 ((x - lo) / step))" using assms(1)
    by (simp add: max_divide_distrib_right min_divide_distrib_right)
  also have "\<dots> = ?r" using assms(2) by linarith
  finally show ?thesis .
qed

lemma edge_position:
  assumes "step \<noteq> 0" "1 \<le> n"
  shows "(nearest_edge lo step n x - lo) / step = max 0 (min (of_int (n - 1)) ((x - lo) / step))"
proof (cases "0 < step")
  case True
  then show ?thesis using assms(2) edge_position_pos [of step "of_int (n - 1)" lo x]
    by (simp add: nearest_edge_def Let_def)
next
  case False
  then have "step < 0" using assms(1) by simp
  then show ?thesis using assms(2) edge_position_neg [of step "of_int (n - 1)" lo x]
    by (simp add: nearest_edge_def Let_def)
qed

lemma in_int_range_clamp:
  "0 \<le> k \<Longrightarrow> in_int_range r \<Longrightarrow> in_int_range (max 0 (min (of_int k) r))"
  by (auto simp: in_int_range_def INT_MIN_def INT_MAX_def max_def min_def)

lemma clamp_index_clamp: "clamp_index (max 0 (min (n - 1) i)) n = clamp_index i n"
  by (simp add: clamp_index_def)

text \<open>
  In exact arithmetic a query has the indices of the query moved to the nearest coordinate
  that the grid covers.
\<close>

lemma find_grid_indices_nearest_edge:
  assumes "1 \<le> nrows g" and "1 \<le> ncols g"
    and "lat_step g \<noteq> 0" and "lon_step g \<noteq> 0"
    and "in_int_range ((lat - lat_min g) / lat_step g)"
    and "in_int_range ((lon - lon_min g) / lon_step g)"
  shows "find_grid_indices exact g (nearest_edge (lat_min g) (lat_step g) (nrows g) lat)
                               (nearest_edge (lon_min g) (lon_step g) (ncols g) lon)
           = find_grid_indices exact g lat lon"
proof -
  let ?row = "(lat - lat_min g) / lat_step g"
  let ?col = "(lon - lon_min g) / lon_step g"
  let ?lat' = "nearest_edge (lat_min g) (lat_step g) (nrows g) lat"
  let ?lon' = "nearest_edge (lon_min g) (lon_step g) (ncols g) lon"
  have row': "(?lat' - lat_min g) / lat_step g = max 0 (min (of_int (nrows g - 1)) ?row)"
    using assms(3,1) by (rule edge_position)
  have col': "(?lon' - lon_min g) / lon_step g = max 0 (min (of_int (ncols g - 1)) ?col)"
    using assms(4,2) by (rule edge_position)
  have here: "find_grid_indices exact g lat lon =
      Inr (clamp_index \<lfloor>?row\<rfloor> (nrows g), clamp_index \<lfloor>?col\<rfloor> (ncols g),
           clamp_index \<lceil>?row\<rceil> (nrows g), clamp_index \<lceil>?col\<rceil> (ncols g))"
    using find_grid_indices_in_range [of g exact lat lon] assms(3-6) by simp
  have "in_int_range ((?lat' - lat_min g) / lat_step g)"
    unfolding row' using assms(1,5) by (intro in_int_range_clamp) simp_all
  moreover have "in_int_range ((?lon' - lon_min g) / lon_step g)"
    unfolding col' using assms(2,6) by (intro in_int_range_clamp) simp_all
  ultimately have "find_grid_indices exact g ?lat' ?lon' =
      Inr (clamp_index \<lfloor>(?lat' - lat_min g) / lat_step g\<rfloor> (nrows g),
           clamp_index \<lfloor>(?lon' - lon_min g) / lon_step g\<rfloor> (ncols g),
           clamp_index \<lceil>(?lat' - lat_min g) / lat_step g\<rceil> (nrows g),
           clamp_index \<lceil>(?lon' - lon_min g) / lon_step g\<rceil> (ncols g))"
    using find_grid_indices_in_range [of g exact ?lat' ?lon'] assms(3,4) by simp
  then have "find_grid_indices exact g ?lat' ?lon' =
      Inr (clamp_index \<lfloor>?row\<rfloor> (nrows g), clamp_index \<lfloor>?col\<rfloor> (ncols g),
           clamp_index \<lceil>?row\<rceil> (nrows g), clamp_index \<lceil>?col\<rceil> (ncols g))"
    using assms(1,2)
    by (simp only: row' col' floor_clamp ceiling_clamp clamp_index_clamp)
  with here show ?thesis by simp
qed

lemma convex_between:
  fixes a b t :: real
  assumes "0 \<le> t" "t \<le> 1"
  shows "min a b \<le> a + t * (b - a) \<and> a + t * (b - a) \<le> max a b"
proof -
  have e: "(1 - t) * (b - a) = (b - a) - t * (b - a)"
    by (simp add: algebra_simps)
  show ?thesis
  proof (cases "a \<le> b")
    case True
    with assms have "0 \<le> t * (b - a)" "0 \<le> (1 - t) * (b - a)"
      by simp_all
    with True e show ?thesis by linarith
  next
    case False
    with assms have "t * (b - a) \<le> 0" "(1 - t) * (b - a) \<le> 0"
      by (simp_all add: mult_nonneg_nonpos)
    with False e show ?thesis by linarith
  qed
qed

lemma clamp_floor_between:
  fixes x y z :: real
  assumes "min x z \<le> y" "y \<le> max x z"
    and "clamp_index \<lfloor>x\<rfloor> n = k" "clamp_index \<lfloor>z\<rfloor> n = k"
  shows "clamp_index \<lfloor>y\<rfloor> n = k"
proof -
  have "\<lfloor>min x z\<rfloor> \<le> \<lfloor>y\<rfloor>" "\<lfloor>y\<rfloor> \<le> \<lfloor>max x z\<rfloor>"
    using assms(1,2) by (simp_all add: floor_mono)
  then have "min \<lfloor>x\<rfloor> \<lfloor>z\<rfloor> \<le> \<lfloor>y\<rfloor>" "\<lfloor>y\<rfloor> \<le> max \<lfloor>x\<rfloor> \<lfloor>z\<rfloor>"
    by (simp_all add: min_def max_def floor_mono split: if_splits)
  with assms(3,4) show ?thesis
    unfolding clamp_index_def by linarith
qed

lemma clamp_ceiling_between:
  fixes x y z :: real
  assumes "min x z \<le> y" "y \<le> max x z"
    and "clamp_index \<lceil>x\<rceil> n = k" "clamp_index \<lceil>z\<rceil> n = k"
  shows "clamp_index \<lceil>y\<rceil> n = k"
proof -
  have "\<lceil>min x z\<rceil> \<le> \<lceil>y\<rceil>" "\<lceil>y\<rceil> \<le> \<lceil>max x z\<rceil>"
    using assms(1,2) by (simp_all add: ceiling_mono)
  then have "min \<lceil>x\<rceil> \<lceil>z\<rceil> \<le> \<lceil>y\<rceil>" "\<lceil>y\<rceil> \<le> max \<lceil>x\<rceil> \<lceil>z\<rceil>"
    by (simp_all add: min_def max_def ceiling_mono split: if_splits)
  with assms(3,4) show ?thesis
    unfolding clamp_index_def by linarith
qed

lemma in_int_range_between:
  "min x z \<le> y \<Longrightarrow> y \<le> max x z \<Longrightarrow> in_int_range x \<Longrightarrow> in_int_range z \<Longrightarrow> in_int_range y"
  by (auto simp: in_int_range_def min_def max_def split: if_splits)

section \<open>Properties of the loader\<close>

declare count_rows.simps [simp del] read_rows.simps [simp del] lines_of.simps [simp del]

lemma lines_of_None: "getline s = None \<Longrightarrow> lines_of s = []"
  by (simp add: lines_of.simps [of s])

lemma lines_of_Some: "getline s = Some (line, rest) \<Longrightarrow> lines_of s = line # lines_of rest"
  by (simp add: lines_of.simps [of s])

lemma lines_of_Cons:
  assumes "lines_of s = l # ls"
  shows "\<exists>rest. getline s = Some (l, rest) \<and> lines_of rest = ls"
proof (cases "getline s")
  case None
  with assms show ?thesis by (simp add: lines_of_None)
next
  case (Some p)
  then obtain line rest where g: "getline s = Some (line, rest)" by (cases p) auto
  with assms show ?thesis by (simp add: lines_of_Some [OF g])
qed

lemma count_rows_lines: "count_rows s n = n + int (length (lines_of s))"
proof (induction s n rule: count_rows.induct)
  case (1 s n)
  show ?case
  proof (cases "getline s")
    case None
    then show ?thesis by (simp add: count_rows.simps [of s] lines_of_None)
  next
    case (Some p)
    then obtain line rest where g: "getline s = Some (line, rest)" by (cases p) auto
    from 1 [OF g refl] show ?thesis
      by (simp add: count_rows.simps [of s] g lines_of_Some [OF g])
  qed
qed

lemma update3:
  assumes "3 * i + 3 \<le> length buf"
  shows "take (3 * Suc i) (buf[3 * i := a, 3 * i + 1 := b, 3 * i + 2 := c]) = take (3 * i) buf @ [a, b, c]"
  using assms
  by (auto simp: list_eq_iff_nth_eq nth_append nth_list_update less_Suc_eq numeral_3_eq_3)

lemma read_rows_done: "\<not> i < n \<Longrightarrow> read_rows rd i n nc s buf = Inr buf"
  by (simp add: read_rows.simps [of rd i])

lemma read_rows_result:
  assumes "lines_of s = ls" and "length ls + i = n" and "length buf = 3 * n"
  shows "read_rows rd (int i) (int n) 3 s buf =
           (if \<forall>l\<in>set ls. parse_row rd l \<noteq> None
            then Inr (take (3 * i) buf @ concat (map (row_values rd) ls))
            else Inl InvalidFormat)"
  using assms
proof (induction ls arbitrary: s i buf)
  case Nil
  then show ?case by (simp add: read_rows_done)
next
  case (Cons l ls)
  from lines_of_Cons [OF Cons.prems(1)] obtain rest
    where g: "getline s = Some (l, rest)" and r: "lines_of rest = ls" by blast
  from Cons.prems(2) have lt: "i < n" by simp
  show ?case
  proof (cases "parse_row rd l")
    case None
    with g lt show ?thesis by (simp add: read_rows.simps [of rd "int i"])
  next
    case (Some v)
    then obtain lon lat h where p: "parse_row rd l = Some (lon, lat, h)" by (cases v) auto
    let ?b = "buf[3 * i := lon, 3 * i + 1 := lat, 3 * i + 2 := h]"
    from lt Cons.prems(3) have rng: "3 * i + 3 \<le> length buf" by simp
    have step: "read_rows rd (int i) (int n) 3 s buf = read_rows rd (int (Suc i)) (int n) 3 rest ?b"
      using g p lt rng
      by (simp add: read_rows.simps [of rd "int i"] store_def nat_mult_distrib nat_add_distrib mult.commute add.commute)
    have ih: "read_rows rd (int (Suc i)) (int n) 3 rest ?b =
           (if \<forall>l\<in>set ls. parse_row rd l \<noteq> None
            then Inr (take (3 * Suc i) ?b @ concat (map (row_values rd) ls))
            else Inl InvalidFormat)"
      using Cons.prems by (intro Cons.IH [OF r]) simp_all
    have tk: "take (3 * Suc i) ?b = take (3 * i) buf @ [lon, lat, h]"
      by (rule update3 [OF rng])
    have rv: "row_values rd l = [lon, lat, h]"
      using p by (simp add: row_values_def)
    show ?thesis
      unfolding step ih tk using p rv by simp
  qed
qed

lemma length_row_values: "parse_row rd l \<noteq> None \<Longrightarrow> length (row_values rd l) = 3"
  by (auto simp: row_values_def split: option.splits)

lemma length_concat_rows:
  "\<forall>l\<in>set ls. parse_row rd l \<noteq> None \<Longrightarrow> length (concat (map (row_values rd) ls)) = 3 * length ls"
  by (induction ls) (simp_all add: length_row_values)

lemma count_tabs_header: "count_tabs expected_header 0 = 2"
  by (simp add: expected_header_def)

lemma load_result:
  assumes "fst (read_header content) = expected_header"
  shows "load_geoid_model fl rd (Some content) =
           (if \<forall>l\<in>set (data_rows content). parse_row rd l \<noteq> None
            then model_of fl (int (length (data_rows content)))
                   (concat (map (row_values rd) (data_rows content)))
            else Inl InvalidFormat)"
proof -
  obtain line rest where h: "read_header content = (line, rest)" by (cases "read_header content")
  with assms have line: "line = expected_header" by simp
  have rows: "data_rows content = lines_of rest" by (simp add: data_rows_def h)
  have n: "count_rows rest 0 = int (length (lines_of rest))" by (simp add: count_rows_lines)
  have rr: "read_rows rd 0 (int (length (lines_of rest))) 3 rest
              (replicate (nat (int (length (lines_of rest)) * 3)) 0) =
           (if \<forall>l\<in>set (lines_of rest). parse_row rd l \<noteq> None
            then Inr (concat (map (row_values rd) (lines_of rest)))
            else Inl InvalidFormat)"
    using read_rows_result [of rest "lines_of rest" 0 "length (lines_of rest)"
        "replicate (nat (int (length (lines_of rest)) * 3)) 0" rd]
    by (simp add: nat_mult_distrib)
  have "load_geoid_model fl rd (Some content) =
          and_then (read_rows rd 0 (int (length (lines_of rest))) 3 rest
                      (replicate (nat (int (length (lines_of rest)) * 3)) 0))
            (model_of fl (int (length (lines_of rest))))"
    by (simp add: load_geoid_model_def h line n count_tabs_header model_of_def Let_def)
  also have "\<dots> = (if \<forall>l\<in>set (lines_of rest). parse_row rd l \<noteq> None
            then model_of fl (int (length (lines_of rest)))
                   (concat (map (row_values rd) (lines_of rest)))
            else Inl InvalidFormat)"
    unfolding rr by auto
  finally show ?thesis
    unfolding rows .
qed

lemma load_bad_header:
  "fst (read_header content) \<noteq> expected_header \<Longrightarrow> load_geoid_model fl rd (Some content) = Inl InvalidFormat"
  by (cases "read_header content") (simp add: load_geoid_model_def)


lemma sample_rows:
  "fst (read_header sample_file) = expected_header"
  "data_rows sample_file = [''-9 40 50'', ''-8 40 52'', ''-8.5 41 48'']"
  by code_simp+

lemma sample_values:
  "parse_row read_decimal ''-9 40 50'' = Some (- 9, 40, 50)"
  "parse_row read_decimal ''-8 40 52'' = Some (- 8, 40, 52)"
  "parse_row read_decimal ''-8.5 41 48'' = Some (- 8.5, 41, 48)"
  by code_simp+

lemma load_sample: "load_geoid_model round_double read_decimal (Some sample_file) = Inr sample_model"
  by (simp add: load_result sample_rows sample_values row_values_def model_of_def at_index_def
      sample_model_def round_double_small_values round_double_quarter)

lemma read_header_expected:
  "read_header expected_header = (expected_header, [])"
  "read_header (expected_header @ [CHR 0x0A]) = (expected_header, [])"
  by (simp_all add: read_header_def getline_def expected_header_def)

lemma model_of_Inr:
  assumes "model_of fl n d = Inr g"
  shows "6 < int (length d) \<and> 0 \<le> (n - 1) * 3 + 1 \<and> (n - 1) * 3 + 1 < int (length d) \<and>
     g = \<lparr>nrows = n, ncols = 3, lat_min = d ! 1, lon_min = d ! 0,
          lat_step = fl (fl (d ! nat ((n - 1) * 3 + 1) - d ! 1) / of_int (n - 1)),
          lon_step = fl (fl (d ! 6 - d ! 0) / 2), data = d\<rparr>"
  using assms
  by (auto simp: model_of_def at_index_def and_then_Inr_iff split: if_splits)

lemma load_Inr:
  assumes "load_geoid_model fl rd file = Inr g"
  obtains content where "file = Some content"
    and "fst (read_header content) = expected_header"
    and "\<forall>row\<in>set (data_rows content). parse_row rd row \<noteq> None"
    and "model_of fl (int (length (data_rows content)))
           (concat (map (row_values rd) (data_rows content))) = Inr g"
proof -
  from assms obtain content where f: "file = Some content"
    by (cases "file") (auto simp: load_geoid_model_def)
  from assms f have h: "fst (read_header content) = expected_header"
    using load_bad_header [of content fl rd] by auto
  from assms f h have "\<forall>row\<in>set (data_rows content). parse_row rd row \<noteq> None"
    and "model_of fl (int (length (data_rows content)))
           (concat (map (row_values rd) (data_rows content))) = Inr g"
    by (auto simp: load_result split: if_splits)
  with f h that show ?thesis by blast
qed

lemma load_needs_three_rows:
  assumes "load_geoid_model fl rd file = Inr g"
  shows "3 \<le> nrows g"
proof -
  from assms obtain content where
    ok: "\<forall>row\<in>set (data_rows content). parse_row rd row \<noteq> None"
    and m: "model_of fl (int (length (data_rows content)))
           (concat (map (row_values rd) (data_rows content))) = Inr g"
    by (rule load_Inr)
  from model_of_Inr [OF m] length_concat_rows [OF ok] show ?thesis
    by simp
qed

text \<open>
  A file with a single data row that parses: the buffer has three samples, and
  \<^verbatim>\<open>model.data[(model.ncols - 1) * 3]\<close> reads sample 6, which does not exist. The load
  ends there without an exception, before the division by \<open>nrows - 1 = 0\<close>.
\<close>

lemma load_one_row:
  assumes "fst (read_header content) = expected_header"
    and "data_rows content = [row]" and "parse_row rd row = Some (lon, lat, h)"
  shows "load_geoid_model fl rd (Some content) = Inl Undefined"
  using assms by (simp add: load_result row_values_def model_of_def at_index_def)

lemma nth_concat_rows:
  assumes "\<forall>l\<in>set ls. parse_row rd l \<noteq> None" and "i < length ls"
  shows "parse_row rd (ls ! i) =
           Some (concat (map (row_values rd) ls) ! (3 * i),
                 concat (map (row_values rd) ls) ! (3 * i + 1),
                 concat (map (row_values rd) ls) ! (3 * i + 2))"
  using assms
proof (induction ls arbitrary: i)
  case Nil
  then show ?case by simp
next
  case (Cons l ls)
  from Cons.prems(1) obtain lon lat h where p: "parse_row rd l = Some (lon, lat, h)"
    by (cases "parse_row rd l") auto
  then have rv: "row_values rd l = [lon, lat, h]" by (simp add: row_values_def)
  show ?case
  proof (cases i)
    case 0
    then show ?thesis by (simp add: rv p)
  next
    case (Suc j)
    with Cons.prems have "parse_row rd (ls ! j) =
           Some (concat (map (row_values rd) ls) ! (3 * j),
                 concat (map (row_values rd) ls) ! (3 * j + 1),
                 concat (map (row_values rd) ls) ! (3 * j + 2))"
      by (intro Cons.IH) simp_all
    then show ?thesis by (simp add: Suc rv nth_append)
  qed
qed

section \<open>Format errors\<close>




section \<open>A file without data rows\<close>

text \<open>
  Claim C6. The specification has the loader fail with a format error when no data row
  follows the header. The loader does not: the row count is 0, the buffer is empty, the loop
  does not run, and \<^verbatim>\<open>model.data[0]\<close> reads an element that does not exist. That holds
  for the header alone and for the header followed by a newline, whatever the reader.
\<close>

theorem load_header_only:
  "load_geoid_model fl rd (Some expected_header) = Inl Undefined \<and>
   load_geoid_model fl rd (Some (expected_header @ [CHR 0x0A])) = Inl Undefined"
  by (simp add: load_result read_header_expected data_rows_def lines_of_None getline_def
      model_of_def at_index_def)

section \<open>Geometry of a loaded model\<close>

text \<open>
  Claim C7. When \<open>load_geoid_model\<close> returns a model with at least two rows and two
  columns, \<open>lon_min\<close> is sample 0 and \<open>lat_min\<close> is sample 1, the longitude step is
  (sample \<open>(ncols - 1) * 3\<close> minus sample 0) divided by \<open>ncols - 1\<close>, and the latitude
  step is (sample \<open>(nrows - 1) * ncols + 1\<close> minus sample 1) divided by \<open>nrows - 1\<close>; both
  offsets lie inside the buffer. (A model is returned only for files of three rows or
  more, see \<open>load_needs_three_rows\<close>: with fewer, sample \<open>(ncols - 1) * 3 = 6\<close> does not
  exist.)
\<close>

theorem load_geometry:
  assumes "load_geoid_model fl rd file = Inr g" and "2 \<le> nrows g" and "2 \<le> ncols g"
  shows "lon_min g = data g ! 0 \<and> lat_min g = data g ! 1 \<and>
         (ncols g - 1) * 3 < int (length (data g)) \<and>
         (nrows g - 1) * ncols g + 1 < int (length (data g)) \<and>
         lon_step g = fl (fl (data g ! nat ((ncols g - 1) * 3) - data g ! 0)
                            / of_int (ncols g - 1)) \<and>
         lat_step g = fl (fl (data g ! nat ((nrows g - 1) * ncols g + 1) - data g ! 1)
                            / of_int (nrows g - 1))"
proof -
  from assms(1) obtain content where
    m: "model_of fl (int (length (data_rows content)))
           (concat (map (row_values rd) (data_rows content))) = Inr g"
    by (rule load_Inr)
  from model_of_Inr [OF m] show ?thesis
    by simp
qed

theorem load_geometry_witness:
  "load_geoid_model round_double read_decimal (Some sample_file) = Inr sample_model \<and>
   2 \<le> nrows sample_model \<and> 2 \<le> ncols sample_model \<and>
   lon_min sample_model = data sample_model ! 0 \<and>
   lat_min sample_model = data sample_model ! 1 \<and>
   lon_step sample_model
     = round_double (round_double (data sample_model ! 6 - data sample_model ! 0) / 2) \<and>
   lat_step sample_model
     = round_double (round_double (data sample_model ! 7 - data sample_model ! 1) / 2)"
proof -
  have n: "2 \<le> nrows sample_model" "2 \<le> ncols sample_model"
    by (simp_all add: sample_model_def)
  have v: "nrows sample_model = 3" "ncols sample_model = 3"
    by (simp_all add: sample_model_def)
  from load_geometry [OF load_sample n] show ?thesis
    using load_sample n by (simp add: v)
qed

section \<open>Three columns\<close>

text \<open>
  Claim C10. Every model that \<open>load_geoid_model\<close> returns has exactly 3 columns, as many
  rows as the file has data rows, and a buffer of 3 times that many samples; the buffer is
  the concatenation of the three numbers read from each row, so samples \<open>3 * i\<close>,
  \<open>3 * i + 1\<close> and \<open>3 * i + 2\<close> are the longitude, latitude and height read from row \<open>i\<close>
  and no slot is left unfilled.
\<close>

theorem load_three_columns:
  assumes "load_geoid_model fl rd (Some content) = Inr g"
  shows "ncols g = 3 \<and> nrows g = int (length (data_rows content)) \<and>
         int (length (data g)) = 3 * nrows g \<and>
         data g = concat (map (row_values rd) (data_rows content)) \<and>
         (\<forall>i<length (data_rows content).
            parse_row rd (data_rows content ! i)
              = Some (data g ! (3 * i), data g ! (3 * i + 1), data g ! (3 * i + 2)))"
proof -
  from assms obtain c where "Some content = Some c"
    and ok: "\<forall>row\<in>set (data_rows c). parse_row rd row \<noteq> None"
    and m: "model_of fl (int (length (data_rows c)))
           (concat (map (row_values rd) (data_rows c))) = Inr g"
    by (rule load_Inr)
  then have c: "c = content" by simp
  from model_of_Inr [OF m] have g: "ncols g = 3" "nrows g = int (length (data_rows c))"
    "data g = concat (map (row_values rd) (data_rows c))" by simp_all
  show ?thesis
    using g length_concat_rows [OF ok] nth_concat_rows [OF ok] unfolding c by simp
qed

theorem load_three_columns_witness:
  "load_geoid_model round_double read_decimal (Some sample_file) = Inr sample_model \<and>
   ncols sample_model = 3 \<and> nrows sample_model = 3 \<and>
   length (data sample_model) = 9 \<and>
   parse_row read_decimal (data_rows sample_file ! 2)
     = Some (data sample_model ! 6, data sample_model ! 7, data sample_model ! 8)"
proof -
  note t = load_three_columns [OF load_sample]
  have l: "2 < length (data_rows sample_file)"
    by (simp add: sample_rows)
  have c: "ncols sample_model = 3"
    by (rule t [THEN conjunct1])
  have r: "nrows sample_model = 3"
    using t [THEN conjunct2, THEN conjunct1] by (simp add: sample_rows)
  have n: "int (length (data sample_model)) = 3 * nrows sample_model"
    by (rule t [THEN conjunct2, THEN conjunct2, THEN conjunct1])
  have p: "parse_row read_decimal (data_rows sample_file ! 2)
     = Some (data sample_model ! (3 * 2), data sample_model ! (3 * 2 + 1),
             data sample_model ! (3 * 2 + 2))"
    using t [THEN conjunct2, THEN conjunct2, THEN conjunct2, THEN conjunct2] l by blast
  from n r have "length (data sample_model) = 9"
    by simp
  with c r p load_sample show ?thesis
    by simp
qed

section \<open>Topographic height\<close>

text \<open>
  Claim C1. \<open>compute_topographic_height\<close> returns the ellipsoid height minus the
  interpolated geoid height (one double subtraction) whenever the interpolation returns a
  height, and fails only when, and as, the interpolation fails; being a function of its
  arguments it has no state and no effect. With an interpolated geoid height of 50 and an
  ellipsoid height of 148 the result is 98.
\<close>

theorem compute_topographic_height_identity:
  "(\<forall>geoid_height. interpolate_geoid_height fl model lat lon = Inr geoid_height \<longrightarrow>
      compute_topographic_height fl model lat lon ellipsoid_height
        = Inr (fl (ellipsoid_height - geoid_height))) \<and>
   (\<forall>e. interpolate_geoid_height fl model lat lon = Inl e \<longrightarrow>
      compute_topographic_height fl model lat lon ellipsoid_height = Inl e) \<and>
   (interpolate_geoid_height round_double model lat lon = Inr 50 \<longrightarrow>
      compute_topographic_height round_double model lat lon 148 = Inr 98)"
  by (simp add: compute_topographic_height_def round_double_small_values)

theorem compute_topographic_height_identity_witness:
  "interpolate_geoid_height round_double grid_2x2 40 (- 9) = Inr 50 \<and>
   compute_topographic_height round_double grid_2x2 40 (- 9) 148 = Inr 98 \<and>
   interpolate_geoid_height round_double grid_2x2 2147483688 (- 9) = Inl Undefined \<and>
   compute_topographic_height round_double grid_2x2 2147483688 (- 9) 148 = Inl Undefined"
proof -
  note ok = interp_2x2(2) and ko = interp_2x2(3)
  from ok compute_topographic_height_identity [of round_double grid_2x2 40 "- 9" 148]
  have "compute_topographic_height round_double grid_2x2 40 (- 9) 148 = Inr 98"
    by blast
  moreover from ko compute_topographic_height_identity [of round_double grid_2x2 2147483688 "- 9" 148]
  have "compute_topographic_height round_double grid_2x2 2147483688 (- 9) 148 = Inl Undefined"
    by blast
  ultimately show ?thesis
    using ok ko by simp
qed

section \<open>The worked example\<close>

text \<open>
  Claim C2. On the 2 by 2 grid with rows at latitudes 40 and 41, columns at longitudes -9
  and -8 and samples 50, 52 (row 0) and 48, 49 (row 1), the query (40.5, -8.5) lies in the
  cell with row indices 0, 1 and column indices 0, 1, and the interpolated height is
  (50 + 52 + 48 + 49) / 4 = 49.75, in double arithmetic as in exact arithmetic: every
  intermediate value (0.5, 2, 1, 51, 48.5, -2.5, -1.25, 49.75) is a double.
\<close>

theorem interpolate_2x2_centre:
  "find_grid_indices round_double grid_2x2 40.5 (- 8.5) = Inr (0, 0, 1, 1) \<and>
   interpolate_geoid_height round_double grid_2x2 40.5 (- 8.5) = Inr ((50 + 52 + 48 + 49) / 4) \<and>
   interpolate_geoid_height round_double grid_2x2 40.5 (- 8.5) = Inr 49.75 \<and>
   interpolate_geoid_height exact grid_2x2 40.5 (- 8.5) = Inr 49.75"
  by (simp add: grid_eval grid_2x2_def round_double_0 round_double_small_values)

lemma cell_index_in_range:
  assumes "0 \<le> r" "r < n" "0 \<le> c" "c < m" "int (length d) = n * m"
  shows "0 \<le> r * m + c \<and> r * m + c < int (length d)"
proof -
  have "r * m + c < r * m + m" using assms(4) by simp
  also have "\<dots> = (r + 1) * m" by (simp add: algebra_simps)
  also have "\<dots> \<le> n * m" using assms(2,3,4) by (intro mult_right_mono) simp_all
  finally have "r * m + c < n * m" .
  moreover have "0 \<le> r * m" using assms(1,3,4) by simp
  ultimately show ?thesis using assms(3,5) by simp
qed

lemma sample_at_cell:
  assumes "0 \<le> r" "r < nrows g" "0 \<le> c" "c < ncols g"
    and "int (length (data g)) = nrows g * ncols g" and "nrows g * ncols g \<le> INT_MAX"
  shows "sample_at g r c = Inr (data g ! nat (r * ncols g + c)) \<and>
         data g ! nat (r * ncols g + c) \<in> set (data g)"
proof -
  note i = cell_index_in_range [OF assms(1-5)]
  have "0 \<le> r * ncols g" using assms(1,3,4) by simp
  moreover have "r * ncols g \<le> r * ncols g + c" using assms(3) by simp
  ultimately have p: "int_value (r * ncols g) = Inr (r * ncols g)"
    using i assms(5,6) by (simp add: int_value_def INT_MIN_def)
  have q: "int_value (r * ncols g + c) = Inr (r * ncols g + c)"
    using i assms(5,6) by (simp add: int_value_def INT_MIN_def)
  show ?thesis
    using i by (auto simp: sample_at_def p q at_index_def nat_less_iff intro!: nth_mem)
qed

text \<open>
  An index product beyond the range of \<^verbatim>\<open>int\<close>, as for row 40000 of a grid of 65536
  columns, is a signed overflow: the interpolation has no defined result there.
\<close>

lemma sample_at_overflow:
  "INT_MAX < row * ncols model \<Longrightarrow> sample_at model row col = Inl Undefined"
  by (simp add: sample_at_def int_value_def)

lemma counts_in_int_range:
  assumes "0 \<le> r" "r < n" "0 \<le> c" "c < m" "n * m \<le> INT_MAX"
  shows "n \<le> INT_MAX \<and> m \<le> INT_MAX"
proof -
  have "n * 1 \<le> n * m" using assms(1-4) by (intro mult_left_mono) simp_all
  moreover have "1 * m \<le> n * m" using assms(1-4) by (intro mult_right_mono) simp_all
  ultimately show ?thesis using assms(5) by simp
qed

lemma clamp_index_id: "0 \<le> i \<Longrightarrow> i < n \<Longrightarrow> clamp_index i n = i"
  by (simp add: clamp_index_def)

lemma floor_in_int_range:
  fixes x :: real
  assumes "\<lfloor>x\<rfloor> = r" and "0 \<le> r" and "r < n" and "n \<le> INT_MAX"
  shows "in_int_range x"
proof -
  from assms(1) have "of_int r \<le> x" "x < of_int r + 1"
    by (simp_all add: floor_eq_iff)
  moreover from assms(2-4) have "of_int INT_MIN \<le> (of_int r :: real)" "of_int r + 1 \<le> (of_int INT_MAX :: real)"
    unfolding INT_MIN_def by (simp, linarith)
  ultimately show ?thesis by (simp add: in_int_range_def)
qed

text \<open>
  At a query whose row and column offsets from the located cell are computed as zero, the
  interpolation returns the sample of the cell's first corner.
\<close>

lemma interpolate_zero_offsets:
  assumes idx: "find_grid_indices fl g lat lon = Inr (r1, c1, r2, c2)"
    and at: "sample_at g r1 c1 = Inr h11"
      "sample_at g r1 c2 = Inr h12"
      "sample_at g r2 c1 = Inr h21"
      "sample_at g r2 c2 = Inr h22"
    and off: "fl (lat - lat_min g) = fl (of_int r1 * lat_step g)"
      "fl (lon - lon_min g) = fl (of_int c1 * lon_step g)"
    and fl: "fl 0 = 0" "fl h11 = h11" "fl h21 = h21"
  shows "interpolate_geoid_height fl g lat lon = Inr h11"
  by (simp add: interpolate_geoid_height_def idx at off fl)

section \<open>Queries at grid points\<close>

text \<open>
  Claim C3, amended. Let the grid have nonzero steps and as many samples as \<open>nrows * ncols\<close>,
  a number that fits in an \<^verbatim>\<open>int\<close>; let \<open>(r, c)\<close> be an index pair of the grid, and query the
  exact coordinates \<open>lat_min + r * lat_step\<close>, \<open>lon_min + c * lon_step\<close>. Let no operation
  overflow: the samples are finite doubles, and so are the difference of any two samples
  and the offsets \<open>lat - lat_min\<close> and \<open>lon - lon_min\<close> as they are computed. If the computed
  fractional positions \<^verbatim>\<open>row\<close> and \<^verbatim>\<open>col\<close> are not rounded below \<open>r\<close> and \<open>c\<close> (their
  floors are \<open>r\<close> and \<open>c\<close>), the interpolation returns exactly the sample of cell
  \<open>(r, c)\<close>. This holds for every rounding that keeps 0 and the stored samples unchanged; in
  exact arithmetic the positions are \<open>r\<close> and \<open>c\<close> themselves
  (\<open>grid_point_exact_arithmetic\<close>).

  The hypotheses on the finite range keep the program inside the model. Without them the
  program can leave it: with the samples \<open>2^1023\<close> and \<open>- 2^1023\<close> in neighbouring rows the
  difference \<^verbatim>\<open>h2 - h1\<close> is an infinity, its product with the offset 0 is a NaN, and the
  program returns a NaN and not the sample.
\<close>

theorem interpolate_at_grid_point:
  assumes steps: "lat_step g \<noteq> 0" "lon_step g \<noteq> 0"
    and r: "0 \<le> r" "r < nrows g" and c: "0 \<le> c" "c < ncols g"
    and size: "int (length (data g)) = nrows g * ncols g" "nrows g * ncols g \<le> INT_MAX"
    and lat: "lat = lat_min g + of_int r * lat_step g"
    and lon: "lon = lon_min g + of_int c * lon_step g"
    and zero: "fl 0 = 0"
    and samples: "\<forall>x\<in>set (data g). fl x = x \<and> finite_double x"
    and differences: "\<forall>x\<in>set (data g). \<forall>y\<in>set (data g). finite_double (fl (x - y))"
    and offsets: "finite_double (fl (lat - lat_min g))" "finite_double (fl (lon - lon_min g))"
    and row: "\<lfloor>row_position fl g lat\<rfloor> = r" and col: "\<lfloor>col_position fl g lon\<rfloor> = c"
  shows "interpolate_geoid_height fl g lat lon = Inr (data g ! nat (r * ncols g + c))"
proof -
  let ?r2 = "clamp_index \<lceil>row_position fl g lat\<rceil> (nrows g)"
  let ?c2 = "clamp_index \<lceil>col_position fl g lon\<rceil> (ncols g)"
  note n = counts_in_int_range [OF r c size(2)]
  have rr: "in_int_range (row_position fl g lat)"
    using row r n [THEN conjunct1] by (rule floor_in_int_range)
  have cr: "in_int_range (col_position fl g lon)"
    using col c n [THEN conjunct2] by (rule floor_in_int_range)
  have idx: "find_grid_indices fl g lat lon = Inr (r, c, ?r2, ?c2)"
    using find_grid_indices_in_range [OF steps rr cr] r c row col
    by (simp add: clamp_index_id)
  have r2: "0 \<le> ?r2" "?r2 < nrows g" and c2: "0 \<le> ?c2" "?c2 < ncols g"
    using clamp_index_bounds [of "nrows g"] clamp_index_bounds [of "ncols g"] r c
    by (simp_all add: less_le_trans)
  note a11 = sample_at_cell [OF r c size]
  note a12 = sample_at_cell [OF r c2 size]
  note a21 = sample_at_cell [OF r2 c size]
  note a22 = sample_at_cell [OF r2 c2 size]
  show ?thesis
    by (rule interpolate_zero_offsets [OF idx a11 [THEN conjunct1] a12 [THEN conjunct1]
          a21 [THEN conjunct1] a22 [THEN conjunct1]])
      (use lat lon zero samples a11 a21 in simp_all)
qed

theorem interpolate_at_grid_point_witness:
  "\<lfloor>row_position round_double grid_2x2 41\<rfloor> = 1 \<and>
   \<lfloor>col_position round_double grid_2x2 (- 8)\<rfloor> = 1 \<and>
   finite_double (round_double (41 - lat_min grid_2x2)) \<and>
   finite_double (round_double (- 8 - lon_min grid_2x2)) \<and>
   interpolate_geoid_height round_double grid_2x2 41 (- 8) = Inr 49"
proof -
  have p: "\<lfloor>row_position round_double grid_2x2 41\<rfloor> = 1"
    "\<lfloor>col_position round_double grid_2x2 (- 8)\<rfloor> = 1"
    by (simp_all add: row_position_def col_position_def grid_2x2_def round_double_small_values)
  have d: "\<forall>x\<in>set (data grid_2x2). \<forall>y\<in>set (data grid_2x2). finite_double (round_double (x - y))"
    by (simp add: grid_2x2_def round_double_0 round_double_small_values
        round_double_small_integers finite_double_small)
  have "interpolate_geoid_height round_double grid_2x2 41 (- 8)
          = Inr (data grid_2x2 ! nat (1 * ncols grid_2x2 + 1))"
    using p d
    by (intro interpolate_at_grid_point)
      (simp_all add: grid_2x2_def INT_MAX_def round_double_0 round_double_small_values
        finite_double_small)
  then show ?thesis
    using p by (simp add: grid_2x2_def round_double_small_values finite_double_small)
qed

text \<open>
  Claim C3 as stated fails in double arithmetic. On \<open>rounding_grid\<close> the coordinates of the
  index pair (3, 0) are exactly (3, 0), but the row position \<open>(3 - lat_min) / lat_step\<close> is
  computed as 2.9999999999999996: the cell found has the rows 2 and 3, the offset \<open>dlat\<close> is
  0.9999999999999997 and not 1, and the result is 0.9999999999999997 where the stored sample
  is 1.
\<close>

theorem interpolate_far_edge_counterexample:
  "lat_step rounding_grid \<noteq> 0 \<and> lon_step rounding_grid \<noteq> 0 \<and>
   3 < nrows rounding_grid \<and> 0 < ncols rounding_grid \<and>
   3 = lat_min rounding_grid + 3 * lat_step rounding_grid \<and>
   0 = lon_min rounding_grid + 0 * lon_step rounding_grid \<and>
   int (length (data rounding_grid)) = nrows rounding_grid * ncols rounding_grid \<and>
   data rounding_grid ! nat (3 * ncols rounding_grid + 0) = 1 \<and>
   find_grid_indices round_double rounding_grid 3 0 = Inr (2, 0, 3, 0) \<and>
   interpolate_geoid_height round_double rounding_grid 3 0
     = Inr (9007199254740989 / 9007199254740992) \<and>
   interpolate_geoid_height round_double rounding_grid 3 0
     \<noteq> Inr (data rounding_grid ! nat (3 * ncols rounding_grid + 0))"
  by (simp add: find_far_edge interp_far_edge) (simp add: rounding_grid_def)

lemma grid_point_exact_arithmetic:
  assumes "lat_step g \<noteq> 0" and "lon_step g \<noteq> 0"
    and "0 \<le> r" and "r < nrows g" and "0 \<le> c" and "c < ncols g"
    and "int (length (data g)) = nrows g * ncols g" and "nrows g * ncols g \<le> INT_MAX"
  shows "interpolate_geoid_height exact g (lat_min g + of_int r * lat_step g)
           (lon_min g + of_int c * lon_step g) = Inr (data g ! nat (r * ncols g + c))"
proof -
  have idx: "find_grid_indices exact g (lat_min g + of_int r * lat_step g)
           (lon_min g + of_int c * lon_step g) = Inr (r, c, r, c)"
    using find_grid_indices_in_range [of g exact "lat_min g + of_int r * lat_step g"
        "lon_min g + of_int c * lon_step g"] assms(1-6)
      counts_in_int_range [OF assms(3-6,8)]
    by (simp add: in_int_range_def INT_MIN_def clamp_index_id)
  note a = sample_at_cell [OF assms(3-8), THEN conjunct1]
  show ?thesis
    by (rule interpolate_zero_offsets [OF idx a a a a]) simp_all
qed

lemma find_grid_indices_exact_Inr_iff:
  "(\<exists>idx. find_grid_indices exact g lat lon = Inr idx) \<longleftrightarrow>
     lat_step g \<noteq> 0 \<and> lon_step g \<noteq> 0 \<and>
     in_int_range ((lat - lat_min g) / lat_step g) \<and>
     in_int_range ((lon - lon_min g) / lon_step g)"
  using find_grid_indices_Inr_iff [of exact g lat lon] by simp

lemma find_grid_indices_exact_in_range:
  assumes "lat_step g \<noteq> 0" "lon_step g \<noteq> 0"
    and "in_int_range ((lat - lat_min g) / lat_step g)"
    and "in_int_range ((lon - lon_min g) / lon_step g)"
  shows "find_grid_indices exact g lat lon =
           Inr (clamp_index \<lfloor>(lat - lat_min g) / lat_step g\<rfloor> (nrows g),
                clamp_index \<lfloor>(lon - lon_min g) / lon_step g\<rfloor> (ncols g),
                clamp_index \<lceil>(lat - lat_min g) / lat_step g\<rceil> (nrows g),
                clamp_index \<lceil>(lon - lon_min g) / lon_step g\<rceil> (ncols g))"
  using find_grid_indices_in_range [of g exact lat lon] assms by simp

lemma interpolate_Inr_iff:
  "interpolate_geoid_height exact g lat lon = Inr h \<longleftrightarrow>
     (\<exists>r1 c1 r2 c2 h11 h12 h21 h22.
        find_grid_indices exact g lat lon = Inr (r1, c1, r2, c2) \<and>
        sample_at g r1 c1 = Inr h11 \<and>
        sample_at g r1 c2 = Inr h12 \<and>
        sample_at g r2 c1 = Inr h21 \<and>
        sample_at g r2 c2 = Inr h22 \<and>
        h = (h11 + (lon - lon_min g - of_int c1 * lon_step g) / lon_step g * (h12 - h11)) +
            (lat - lat_min g - of_int r1 * lat_step g) / lat_step g *
            ((h21 + (lon - lon_min g - of_int c1 * lon_step g) / lon_step g * (h22 - h21)) -
             (h11 + (lon - lon_min g - of_int c1 * lon_step g) / lon_step g * (h12 - h11))))"
  by (auto simp: interpolate_geoid_height_def and_then_Inr_iff Let_def)

lemma same_cell_between:
  assumes a: "find_grid_indices exact g lat_a lon_a = Inr idx"
    and b: "find_grid_indices exact g lat_b lon_b = Inr idx"
    and lat: "min ((lat_a - lat_min g) / lat_step g) ((lat_b - lat_min g) / lat_step g)
                \<le> (lat - lat_min g) / lat_step g"
             "(lat - lat_min g) / lat_step g
                \<le> max ((lat_a - lat_min g) / lat_step g) ((lat_b - lat_min g) / lat_step g)"
    and lon: "min ((lon_a - lon_min g) / lon_step g) ((lon_b - lon_min g) / lon_step g)
                \<le> (lon - lon_min g) / lon_step g"
             "(lon - lon_min g) / lon_step g
                \<le> max ((lon_a - lon_min g) / lon_step g) ((lon_b - lon_min g) / lon_step g)"
  shows "find_grid_indices exact g lat lon = Inr idx"
proof -
  from a find_grid_indices_exact_Inr_iff [of g lat_a lon_a]
  have sa: "lat_step g \<noteq> 0" "lon_step g \<noteq> 0"
    and ra: "in_int_range ((lat_a - lat_min g) / lat_step g)"
    and ca: "in_int_range ((lon_a - lon_min g) / lon_step g)" by blast+
  from b find_grid_indices_exact_Inr_iff [of g lat_b lon_b]
  have rb: "in_int_range ((lat_b - lat_min g) / lat_step g)"
    and cb: "in_int_range ((lon_b - lon_min g) / lon_step g)" by blast+
  note ia = find_grid_indices_exact_in_range [OF sa ra ca]
  note ib = find_grid_indices_exact_in_range [OF sa rb cb]
  have r: "in_int_range ((lat - lat_min g) / lat_step g)"
    using lat ra rb by (rule in_int_range_between)
  have c: "in_int_range ((lon - lon_min g) / lon_step g)"
    using lon ca cb by (rule in_int_range_between)
  obtain r1 c1 r2 c2 where idx: "idx = (r1, c1, r2, c2)" by (cases idx) auto
  from a b ia ib idx have
    "clamp_index \<lfloor>(lat_a - lat_min g) / lat_step g\<rfloor> (nrows g) = r1"
    "clamp_index \<lfloor>(lat_b - lat_min g) / lat_step g\<rfloor> (nrows g) = r1"
    "clamp_index \<lfloor>(lon_a - lon_min g) / lon_step g\<rfloor> (ncols g) = c1"
    "clamp_index \<lfloor>(lon_b - lon_min g) / lon_step g\<rfloor> (ncols g) = c1"
    "clamp_index \<lceil>(lat_a - lat_min g) / lat_step g\<rceil> (nrows g) = r2"
    "clamp_index \<lceil>(lat_b - lat_min g) / lat_step g\<rceil> (nrows g) = r2"
    "clamp_index \<lceil>(lon_a - lon_min g) / lon_step g\<rceil> (ncols g) = c2"
    "clamp_index \<lceil>(lon_b - lon_min g) / lon_step g\<rceil> (ncols g) = c2"
    by simp_all
  then have
    "clamp_index \<lfloor>(lat - lat_min g) / lat_step g\<rfloor> (nrows g) = r1"
    "clamp_index \<lfloor>(lon - lon_min g) / lon_step g\<rfloor> (ncols g) = c1"
    "clamp_index \<lceil>(lat - lat_min g) / lat_step g\<rceil> (nrows g) = r2"
    "clamp_index \<lceil>(lon - lon_min g) / lon_step g\<rceil> (ncols g) = c2"
    using lat lon by (blast intro: clamp_floor_between clamp_ceiling_between)+
  with find_grid_indices_exact_in_range [OF sa r c] idx show ?thesis by simp
qed

lemma position_affine:
  fixes s :: real
  assumes "s \<noteq> 0"
  shows "(a + t * (b - a) - lo) / s = (a - lo) / s + t * ((b - lo) / s - (a - lo) / s)"
  using assms by (simp add: field_simps)

lemma bilinear_affine_lon:
  fixes da db dl t h11 h12 h21 h22 :: real
  shows "(h11 + ((1 - t) * da + t * db) * (h12 - h11)) +
            dl * ((h21 + ((1 - t) * da + t * db) * (h22 - h21)) -
                  (h11 + ((1 - t) * da + t * db) * (h12 - h11)))
       = (1 - t) * ((h11 + da * (h12 - h11)) + dl * ((h21 + da * (h22 - h21)) - (h11 + da * (h12 - h11))))
         + t * ((h11 + db * (h12 - h11)) + dl * ((h21 + db * (h22 - h21)) - (h11 + db * (h12 - h11))))"
  by (simp add: algebra_simps)

lemma interpolate_affine_lon:
  assumes a: "find_grid_indices exact g lat lon_a = Inr idx"
    and b: "find_grid_indices exact g lat lon_b = Inr idx"
    and t: "0 \<le> t" "t \<le> 1"
    and ha: "interpolate_geoid_height exact g lat lon_a = Inr ha"
    and hb: "interpolate_geoid_height exact g lat lon_b = Inr hb"
  shows "interpolate_geoid_height exact g lat (lon_a + t * (lon_b - lon_a)) = Inr ((1 - t) * ha + t * hb)"
proof -
  let ?lon = "lon_a + t * (lon_b - lon_a)"
  from a find_grid_indices_exact_Inr_iff [of g lat lon_a]
  have s: "lat_step g \<noteq> 0" "lon_step g \<noteq> 0" by blast+
  have c: "find_grid_indices exact g lat ?lon = Inr idx"
  proof (rule same_cell_between [OF a b])
    show "min ((lon_a - lon_min g) / lon_step g) ((lon_b - lon_min g) / lon_step g)
                \<le> (?lon - lon_min g) / lon_step g"
      unfolding position_affine [OF s(2)] using convex_between [OF t] by blast
    show "(?lon - lon_min g) / lon_step g
                \<le> max ((lon_a - lon_min g) / lon_step g) ((lon_b - lon_min g) / lon_step g)"
      unfolding position_affine [OF s(2)] using convex_between [OF t] by blast
  qed simp_all
  from ha a obtain r1 c1 r2 c2 h11 h12 h21 h22 where
    idx: "idx = (r1, c1, r2, c2)"
    and h: "sample_at g r1 c1 = Inr h11"
      "sample_at g r1 c2 = Inr h12"
      "sample_at g r2 c1 = Inr h21"
      "sample_at g r2 c2 = Inr h22"
    unfolding interpolate_Inr_iff by auto
  from ha a idx h have ea: "ha = (h11 + (lon_a - lon_min g - of_int c1 * lon_step g) / lon_step g * (h12 - h11)) +
            (lat - lat_min g - of_int r1 * lat_step g) / lat_step g *
            ((h21 + (lon_a - lon_min g - of_int c1 * lon_step g) / lon_step g * (h22 - h21)) -
             (h11 + (lon_a - lon_min g - of_int c1 * lon_step g) / lon_step g * (h12 - h11)))"
    unfolding interpolate_Inr_iff by auto
  from hb b idx h have eb: "hb = (h11 + (lon_b - lon_min g - of_int c1 * lon_step g) / lon_step g * (h12 - h11)) +
            (lat - lat_min g - of_int r1 * lat_step g) / lat_step g *
            ((h21 + (lon_b - lon_min g - of_int c1 * lon_step g) / lon_step g * (h22 - h21)) -
             (h11 + (lon_b - lon_min g - of_int c1 * lon_step g) / lon_step g * (h12 - h11)))"
    unfolding interpolate_Inr_iff by auto
  have d: "(?lon - lon_min g - of_int c1 * lon_step g) / lon_step g =
      (1 - t) * ((lon_a - lon_min g - of_int c1 * lon_step g) / lon_step g) +
      t * ((lon_b - lon_min g - of_int c1 * lon_step g) / lon_step g)"
    using s(2) by (simp add: field_simps)
  have "interpolate_geoid_height exact g lat ?lon =
      Inr ((h11 + (?lon - lon_min g - of_int c1 * lon_step g) / lon_step g * (h12 - h11)) +
            (lat - lat_min g - of_int r1 * lat_step g) / lat_step g *
            ((h21 + (?lon - lon_min g - of_int c1 * lon_step g) / lon_step g * (h22 - h21)) -
             (h11 + (?lon - lon_min g - of_int c1 * lon_step g) / lon_step g * (h12 - h11))))"
    using c idx h unfolding interpolate_Inr_iff by simp
  also have "\<dots> = Inr ((1 - t) * ha + t * hb)"
    unfolding d ea eb by (simp only: bilinear_affine_lon)
  finally show ?thesis .
qed

lemma bilinear_affine_lat:
  fixes la lb t h1 h2 :: real
  shows "h1 + ((1 - t) * la + t * lb) * (h2 - h1)
       = (1 - t) * (h1 + la * (h2 - h1)) + t * (h1 + lb * (h2 - h1))"
  by (simp add: algebra_simps)

lemma interpolate_affine_lat:
  assumes a: "find_grid_indices exact g lat_a lon = Inr idx"
    and b: "find_grid_indices exact g lat_b lon = Inr idx"
    and t: "0 \<le> t" "t \<le> 1"
    and ha: "interpolate_geoid_height exact g lat_a lon = Inr ha"
    and hb: "interpolate_geoid_height exact g lat_b lon = Inr hb"
  shows "interpolate_geoid_height exact g (lat_a + t * (lat_b - lat_a)) lon = Inr ((1 - t) * ha + t * hb)"
proof -
  let ?lat = "lat_a + t * (lat_b - lat_a)"
  from a find_grid_indices_exact_Inr_iff [of g lat_a lon]
  have s: "lat_step g \<noteq> 0" "lon_step g \<noteq> 0" by blast+
  have c: "find_grid_indices exact g ?lat lon = Inr idx"
  proof (rule same_cell_between [OF a b])
    show "min ((lat_a - lat_min g) / lat_step g) ((lat_b - lat_min g) / lat_step g)
                \<le> (?lat - lat_min g) / lat_step g"
      unfolding position_affine [OF s(1)] using convex_between [OF t] by blast
    show "(?lat - lat_min g) / lat_step g
                \<le> max ((lat_a - lat_min g) / lat_step g) ((lat_b - lat_min g) / lat_step g)"
      unfolding position_affine [OF s(1)] using convex_between [OF t] by blast
  qed simp_all
  from ha a obtain r1 c1 r2 c2 h11 h12 h21 h22 where
    idx: "idx = (r1, c1, r2, c2)"
    and h: "sample_at g r1 c1 = Inr h11"
      "sample_at g r1 c2 = Inr h12"
      "sample_at g r2 c1 = Inr h21"
      "sample_at g r2 c2 = Inr h22"
    unfolding interpolate_Inr_iff by auto
  let ?h1 = "h11 + (lon - lon_min g - of_int c1 * lon_step g) / lon_step g * (h12 - h11)"
  let ?h2 = "h21 + (lon - lon_min g - of_int c1 * lon_step g) / lon_step g * (h22 - h21)"
  from ha a idx h have ea: "ha = ?h1 + (lat_a - lat_min g - of_int r1 * lat_step g) / lat_step g * (?h2 - ?h1)"
    unfolding interpolate_Inr_iff by auto
  from hb b idx h have eb: "hb = ?h1 + (lat_b - lat_min g - of_int r1 * lat_step g) / lat_step g * (?h2 - ?h1)"
    unfolding interpolate_Inr_iff by auto
  have d: "(?lat - lat_min g - of_int r1 * lat_step g) / lat_step g =
      (1 - t) * ((lat_a - lat_min g - of_int r1 * lat_step g) / lat_step g) +
      t * ((lat_b - lat_min g - of_int r1 * lat_step g) / lat_step g)"
    using s(1) by (simp add: field_simps)
  have "interpolate_geoid_height exact g ?lat lon =
      Inr (?h1 + (?lat - lat_min g - of_int r1 * lat_step g) / lat_step g * (?h2 - ?h1))"
    using c idx h unfolding interpolate_Inr_iff by simp
  also have "\<dots> = Inr ((1 - t) * ha + t * hb)"
    unfolding d ea eb by (simp only: bilinear_affine_lat)
  finally show ?thesis .
qed

section \<open>Linearity within a cell\<close>

text \<open>
  Claim C9, amended. In exact arithmetic the interpolated height is affine in each
  coordinate within a cell: for a fixed latitude, two longitudes \<open>lon_a\<close> and \<open>lon_b\<close> that
  are located in the same cell and \<open>t\<close> between 0 and 1, the height at
  \<open>lon_a + t * (lon_b - lon_a)\<close> is \<open>(1 - t)\<close> times the height at \<open>lon_a\<close> plus \<open>t\<close> times the
  height at \<open>lon_b\<close>; and the same for a fixed longitude and two latitudes. (That the two
  queries are located makes both steps nonzero.)
\<close>

theorem interpolate_affine_in_cell:
  assumes "0 \<le> t" and "t \<le> 1"
  shows "(find_grid_indices exact g lat lon_a = Inr idx \<and>
          find_grid_indices exact g lat lon_b = Inr idx \<and>
          interpolate_geoid_height exact g lat lon_a = Inr ha \<and>
          interpolate_geoid_height exact g lat lon_b = Inr hb \<longrightarrow>
          interpolate_geoid_height exact g lat (lon_a + t * (lon_b - lon_a))
            = Inr ((1 - t) * ha + t * hb)) \<and>
         (find_grid_indices exact g lat_a lon = Inr idx' \<and>
          find_grid_indices exact g lat_b lon = Inr idx' \<and>
          interpolate_geoid_height exact g lat_a lon = Inr ha' \<and>
          interpolate_geoid_height exact g lat_b lon = Inr hb' \<longrightarrow>
          interpolate_geoid_height exact g (lat_a + t * (lat_b - lat_a)) lon
            = Inr ((1 - t) * ha' + t * hb'))"
  using interpolate_affine_lon [OF _ _ assms] interpolate_affine_lat [OF _ _ assms]
  by blast

lemma exact_2x2:
  "find_grid_indices exact grid_2x2 40.5 (- 8.75) = Inr (0, 0, 1, 1)"
  "find_grid_indices exact grid_2x2 40.5 (- 8.25) = Inr (0, 0, 1, 1)"
  "interpolate_geoid_height exact grid_2x2 40.5 (- 8.75) = Inr 49.375"
  "interpolate_geoid_height exact grid_2x2 40.5 (- 8.25) = Inr 50.125"
  "find_grid_indices exact grid_2x2 40.25 (- 8.5) = Inr (0, 0, 1, 1)"
  "find_grid_indices exact grid_2x2 40.75 (- 8.5) = Inr (0, 0, 1, 1)"
  "interpolate_geoid_height exact grid_2x2 40.25 (- 8.5) = Inr 50.375"
  "interpolate_geoid_height exact grid_2x2 40.75 (- 8.5) = Inr 49.125"
  by (simp_all add: grid_eval grid_2x2_def)

theorem interpolate_affine_in_cell_witness:
  "interpolate_geoid_height exact grid_2x2 40.5 (- 8.75 + 1 / 2 * (- 8.25 - - 8.75))
     = Inr ((1 - 1 / 2) * 49.375 + 1 / 2 * 50.125) \<and>
   interpolate_geoid_height exact grid_2x2 (40.25 + 1 / 2 * (40.75 - 40.25)) (- 8.5)
     = Inr ((1 - 1 / 2) * 50.375 + 1 / 2 * 49.125)"
proof -
  have t: "(0::real) \<le> 1 / 2" "(1::real) / 2 \<le> 1" by simp_all
  from interpolate_affine_in_cell [OF t, THEN conjunct1, rule_format, OF conjI [OF exact_2x2(1) conjI [OF exact_2x2(2) conjI [OF exact_2x2(3) exact_2x2(4)]]]]
    interpolate_affine_in_cell [OF t, THEN conjunct2, rule_format, OF conjI [OF exact_2x2(5) conjI [OF exact_2x2(6) conjI [OF exact_2x2(7) exact_2x2(8)]]]]
  show ?thesis by blast
qed

text \<open>
  Claim C9 as stated fails in double arithmetic, where the identity holds up to rounding
  only. On \<open>ulp_grid\<close>, at latitude 0, the longitudes 1/2 and 3/4 are in the same cell and
  have the heights 1 and \<open>1 + 2^-52\<close>; midway, at longitude 5/8, the height is \<open>1 + 2^-52\<close>,
  which is neither the exact combination \<open>1 + 2^-53\<close> nor that combination evaluated in
  double arithmetic, 1.
\<close>

lemmas ulp_eval = grid_eval ulp_grid_def round_double_0 round_double_small_values
  round_ulp_values round_ulp_tie round_ulp_up_3 round_ulp_up_5

theorem interpolate_affine_counterexample:
  "find_grid_indices round_double ulp_grid 0 (1 / 2) = Inr (0, 0, 0, 1) \<and>
   find_grid_indices round_double ulp_grid 0 (3 / 4) = Inr (0, 0, 0, 1) \<and>
   interpolate_geoid_height round_double ulp_grid 0 (1 / 2) = Inr 1 \<and>
   interpolate_geoid_height round_double ulp_grid 0 (3 / 4)
     = Inr (4503599627370497 / 4503599627370496) \<and>
   interpolate_geoid_height round_double ulp_grid 0 (1 / 2 + 1 / 2 * (3 / 4 - 1 / 2))
     = Inr (4503599627370497 / 4503599627370496) \<and>
   (1 - 1 / 2) * 1 + 1 / 2 * (4503599627370497 / 4503599627370496)
     = (9007199254740993 / 9007199254740992 :: real) \<and>
   round_double (round_double (round_double (1 - 1 / 2) * 1)
       + round_double (1 / 2 * (4503599627370497 / 4503599627370496))) = 1 \<and>
   interpolate_geoid_height round_double ulp_grid 0 (1 / 2 + 1 / 2 * (3 / 4 - 1 / 2))
     \<noteq> Inr ((1 - 1 / 2) * 1 + 1 / 2 * (4503599627370497 / 4503599627370496)) \<and>
   interpolate_geoid_height round_double ulp_grid 0 (1 / 2 + 1 / 2 * (3 / 4 - 1 / 2)) \<noteq> Inr 1"
  by (simp add: ulp_eval)

end
